theory Spec2Isabelle
  imports Complex_Main
begin

section \<open>Rate limiting middleware of the Fastify TODO service\<close>

text \<open>
  The development embeds \<^verbatim>\<open>apps/server/src/middleware/rate-limit.ts\<close> and the
  route-scope helpers of \<^verbatim>\<open>docs/tasks/05.md\<close>.

  Conventions of the embedding.
  \<^item> JavaScript numbers that the code uses as counters, limits and millisecond
    timestamps are integers here (\<open>int\<close>); fractional limits are outside the model.
  \<^item> \<^verbatim>\<open>Date.now()\<close> is an argument \<open>now\<close> of every middleware call.
  \<^item> The module-level \<^verbatim>\<open>Map\<close> holds references to \<^verbatim>\<open>RateLimitData\<close> objects, and the
    \<^verbatim>\<open>finish\<close> listener of an admitted request keeps a reference to the object it saw.
    Objects therefore live in an explicit heap (a list, the address is the index) and
    the map goes from keys to addresses.
  \<^item> The middleware body contains no \<^verbatim>\<open>await\<close>, so on Node's event loop it runs to
    completion once called; concurrency between requests is the interleaving of
    middleware calls and \<^verbatim>\<open>finish\<close> events.
\<close>

subsection \<open>Data\<close>

type_synonym addr = nat

record RateLimitData =
  count :: int
  resetTime :: int

record store_state =
  heap :: "RateLimitData list"
  rateLimitStore :: "string \<rightharpoonup> addr"

record FastifyRequest =
  ip :: string
  url :: string
  routerPath :: string

text \<open>
  A header value is a string. \<open>IsoString t\<close> stands for the string
  \<^verbatim>\<open>new Date(t).toISOString()\<close>, the ISO-8601 rendering of the epoch-millisecond
  time \<open>t\<close>, which is left to the runtime.
\<close>

datatype header_value = Text string | IsoString int

datatype json = JString string | JNumber int | JObject "(string \<times> json) list"

text \<open>
  The part of \<^verbatim>\<open>FastifyReply\<close> the middleware touches: the status code, the headers,
  the payload once \<^verbatim>\<open>send\<close> was called, and the listeners registered on the
  \<^verbatim>\<open>finish\<close> event of the raw response. A listener is the closure, applied to the
  status code the reply has when the event fires.
\<close>

record FastifyReply =
  statusCode :: int
  headers :: "string \<rightharpoonup> header_value"
  payload :: "json option"
  onFinish :: "(int \<Rightarrow> store_state \<Rightarrow> store_state) list"

definition newReply :: FastifyReply where
  "newReply = \<lparr>statusCode = 200, headers = Map.empty, payload = None, onFinish = []\<rparr>"

definition sent :: "FastifyReply \<Rightarrow> bool" where
  "sent r = (payload r \<noteq> None)"

definition header :: "string \<Rightarrow> header_value \<Rightarrow> FastifyReply \<Rightarrow> FastifyReply" where
  "header name v r = r\<lparr>headers := (headers r)(name \<mapsto> v)\<rparr>"

definition status :: "int \<Rightarrow> FastifyReply \<Rightarrow> FastifyReply" where
  "status c r = r\<lparr>statusCode := c\<rparr>"

definition send :: "json \<Rightarrow> FastifyReply \<Rightarrow> FastifyReply" where
  "send body r = r\<lparr>payload := Some body\<rparr>"

definition on_finish :: "(int \<Rightarrow> store_state \<Rightarrow> store_state) \<Rightarrow> FastifyReply \<Rightarrow> FastifyReply" where
  "on_finish cb r = r\<lparr>onFinish := onFinish r @ [cb]\<rparr>"

subsection \<open>Options and their defaults\<close>

record RateLimitOptions =
  windowMs_opt :: "int option"
  max_opt :: "int option"
  message_opt :: "string option"
  standardHeaders_opt :: "bool option"
  legacyHeaders_opt :: "bool option"
  skipSuccessfulRequests_opt :: "bool option"
  skipFailedRequests_opt :: "bool option"
  keyGenerator_opt :: "(FastifyRequest \<Rightarrow> string) option"

text \<open>The constants that \<^verbatim>\<open>createRateLimitMiddleware\<close> destructures from its options.\<close>

record RateLimitConfig =
  windowMs :: int
  max' :: int
  message :: string
  standardHeaders :: bool
  legacyHeaders :: bool
  skipSuccessfulRequests :: bool
  skipFailedRequests :: bool
  keyGenerator :: "FastifyRequest \<Rightarrow> string"

definition orDefault :: "'a option \<Rightarrow> 'a \<Rightarrow> 'a" where
  "orDefault v d = (case v of None \<Rightarrow> d | Some x \<Rightarrow> x)"

definition destructure :: "RateLimitOptions \<Rightarrow> RateLimitConfig" where
  "destructure options =
     \<lparr>windowMs = orDefault (windowMs_opt options) (15 * 60 * 1000),
      max' = orDefault (max_opt options) 100,
      message = orDefault (message_opt options) ''Too many requests, please try again later'',
      standardHeaders = orDefault (standardHeaders_opt options) True,
      legacyHeaders = orDefault (legacyHeaders_opt options) False,
      skipSuccessfulRequests = orDefault (skipSuccessfulRequests_opt options) False,
      skipFailedRequests = orDefault (skipFailedRequests_opt options) False,
      keyGenerator = orDefault (keyGenerator_opt options) ip\<rparr>"

definition noOptions :: RateLimitOptions where
  "noOptions =
     \<lparr>windowMs_opt = None, max_opt = None, message_opt = None, standardHeaders_opt = None,
      legacyHeaders_opt = None, skipSuccessfulRequests_opt = None,
      skipFailedRequests_opt = None, keyGenerator_opt = None\<rparr>"

subsection \<open>Rendering numbers\<close>

text \<open>
  \<^verbatim>\<open>Number.prototype.toString\<close> on an integer of magnitude below \<open>10^21\<close>: the decimal
  digits, with a minus sign for a negative number.
\<close>

definition digit :: "nat \<Rightarrow> char" where
  "digit n = ''0123456789'' ! n"

function digits :: "nat \<Rightarrow> string" where
  "digits n = (if n < 10 then [digit n] else digits (n div 10) @ [digit (n mod 10)])"
  by pat_completeness auto
termination
  by (relation "measure id") auto

declare digits.simps [simp del]

definition toString :: "int \<Rightarrow> string" where
  "toString i = (if i < 0 then CHR ''-'' # digits (nat (- i)) else digits (nat i))"

text \<open>\<^verbatim>\<open>Math.ceil(ms / 1000)\<close> on an integer \<open>ms\<close>.\<close>

definition ceilSeconds :: "int \<Rightarrow> int" where
  "ceilSeconds ms = - ((- ms) div 1000)"

subsection \<open>The middleware\<close>

text \<open>
  The sweep at the head of the middleware: every key whose record has
  \<^verbatim>\<open>resetTime <= now\<close> is collected and then deleted from the map.
\<close>

definition deleteExpired :: "int \<Rightarrow> store_state \<Rightarrow> store_state" where
  "deleteExpired now \<sigma> =
     \<sigma>\<lparr>rateLimitStore :=
         (\<lambda>storeKey. case rateLimitStore \<sigma> storeKey of
            None \<Rightarrow> None
          | Some a \<Rightarrow> if resetTime (heap \<sigma> ! a) \<le> now then None else Some a)\<rparr>"

text \<open>Allocation of a new \<^verbatim>\<open>{count: 0, resetTime: now + windowMs}\<close> and \<^verbatim>\<open>set(key, data)\<close>.\<close>

definition createData :: "RateLimitConfig \<Rightarrow> string \<Rightarrow> int \<Rightarrow> store_state \<Rightarrow> addr \<times> store_state" where
  "createData p key now \<sigma> =
     (length (heap \<sigma>),
      \<sigma>\<lparr>heap := heap \<sigma> @ [\<lparr>count = 0, resetTime = now + windowMs p\<rparr>],
        rateLimitStore := (rateLimitStore \<sigma>)(key \<mapsto> length (heap \<sigma>))\<rparr>)"

definition getOrCreate :: "RateLimitConfig \<Rightarrow> string \<Rightarrow> int \<Rightarrow> store_state \<Rightarrow> addr \<times> store_state" where
  "getOrCreate p key now \<sigma> =
     (case rateLimitStore \<sigma> key of
        None \<Rightarrow> createData p key now \<sigma>
      | Some a \<Rightarrow> if resetTime (heap \<sigma> ! a) \<le> now then createData p key now \<sigma> else (a, \<sigma>))"

definition shouldCount :: "RateLimitConfig \<Rightarrow> int \<Rightarrow> bool" where
  "shouldCount p code =
     (if skipSuccessfulRequests p \<and> code \<ge> 200 \<and> code < 300 then False
      else if skipFailedRequests p \<and> code \<ge> 400 then False
      else True)"

text \<open>
  The listener registered with \<^verbatim>\<open>reply.raw.on('finish', ...)\<close>. It closes over the key
  and over the object \<open>a\<close> the middleware obtained: \<^verbatim>\<open>data!.count++\<close> changes that
  object, and \<^verbatim>\<open>rateLimitStore.set(key, data!)\<close> puts it (back) under the key.
\<close>

definition finishListener :: "RateLimitConfig \<Rightarrow> string \<Rightarrow> addr \<Rightarrow> int \<Rightarrow> store_state \<Rightarrow> store_state" where
  "finishListener p key a code \<sigma> =
     (if shouldCount p code
      then \<sigma>\<lparr>heap := (heap \<sigma>)[a := (heap \<sigma> ! a)\<lparr>count := count (heap \<sigma> ! a) + 1\<rparr>],
             rateLimitStore := (rateLimitStore \<sigma>)(key \<mapsto> a)\<rparr>
      else \<sigma>)"

definition rejectionBody :: "RateLimitConfig \<Rightarrow> int \<Rightarrow> json" where
  "rejectionBody p timeUntilReset =
     JObject [(''error'', JString ''Too Many Requests''),
              (''message'', JString (message p)),
              (''retryAfter'', JNumber timeUntilReset)]"

text \<open>The block under \<^verbatim>\<open>if (data.count >= max)\<close>: headers, then the terminal 429.\<close>

definition tooManyRequests :: "RateLimitConfig \<Rightarrow> RateLimitData \<Rightarrow> int \<Rightarrow> FastifyReply \<Rightarrow> FastifyReply" where
  "tooManyRequests p data now reply =
     (let timeUntilReset = ceilSeconds (resetTime data - now);
          r1 = (if standardHeaders p
                then header ''RateLimit-Reset'' (IsoString (resetTime data))
                       (header ''RateLimit-Remaining'' (Text ''0'')
                         (header ''RateLimit-Limit'' (Text (toString (max' p))) reply))
                else reply);
          r2 = (if legacyHeaders p
                then header ''X-RateLimit-Reset'' (Text (toString (ceilSeconds (resetTime data))))
                       (header ''X-RateLimit-Remaining'' (Text ''0'')
                         (header ''X-RateLimit-Limit'' (Text (toString (max' p))) r1))
                else r1);
          r3 = header ''Retry-After'' (Text (toString timeUntilReset)) r2
      in send (rejectionBody p timeUntilReset) (status 429 r3))"

text \<open>The rest of the body: the listener is registered, then the headers are set.\<close>

definition admit :: "RateLimitConfig \<Rightarrow> string \<Rightarrow> addr \<Rightarrow> RateLimitData \<Rightarrow> FastifyReply \<Rightarrow> FastifyReply" where
  "admit p key a data reply =
     (let r0 = on_finish (finishListener p key a) reply;
          r1 = (if standardHeaders p
                then header ''RateLimit-Reset'' (IsoString (resetTime data))
                       (header ''RateLimit-Remaining'' (Text (toString (max' p - count data - 1)))
                         (header ''RateLimit-Limit'' (Text (toString (max' p))) r0))
                else r0)
      in (if legacyHeaders p
          then header ''X-RateLimit-Reset'' (Text (toString (ceilSeconds (resetTime data))))
                 (header ''X-RateLimit-Remaining'' (Text (toString (max' p - count data - 1)))
                   (header ''X-RateLimit-Limit'' (Text (toString (max' p))) r1))
          else r1))"

definition rateLimitMiddleware ::
  "RateLimitConfig \<Rightarrow> FastifyRequest \<Rightarrow> int \<Rightarrow> FastifyReply \<Rightarrow> store_state \<Rightarrow> FastifyReply \<times> store_state" where
  "rateLimitMiddleware p request now reply \<sigma> =
     (let key = keyGenerator p request;
          (a, \<sigma>') = getOrCreate p key now (deleteExpired now \<sigma>);
          data = heap \<sigma>' ! a
      in if count data \<ge> max' p
         then (tooManyRequests p data now reply, \<sigma>')
         else (admit p key a data reply, \<sigma>'))"

definition createRateLimitMiddleware ::
  "RateLimitOptions \<Rightarrow> FastifyRequest \<Rightarrow> int \<Rightarrow> FastifyReply \<Rightarrow> store_state \<Rightarrow> FastifyReply \<times> store_state" where
  "createRateLimitMiddleware options = rateLimitMiddleware (destructure options)"

subsection \<open>Serving a request\<close>

text \<open>
  The \<^verbatim>\<open>finish\<close> event of the raw response: every registered listener runs, in the
  order of registration, and reads the status code the reply has by then.
\<close>

definition emitFinish :: "FastifyReply \<Rightarrow> store_state \<Rightarrow> store_state" where
  "emitFinish r \<sigma> = fold (\<lambda>cb. cb (statusCode r)) (onFinish r) \<sigma>"

text \<open>
  One request served alone: the middleware runs on a new reply at time \<open>now\<close>; when it
  did not send, the downstream handler ends with status \<open>code\<close>; then the response
  finishes, before anything else happens.
\<close>

definition sequentialRequest ::
  "RateLimitConfig \<Rightarrow> FastifyRequest \<Rightarrow> int \<Rightarrow> int \<Rightarrow> store_state \<Rightarrow> FastifyReply \<times> store_state" where
  "sequentialRequest p request now code \<sigma> =
     (let (r, \<sigma>') = rateLimitMiddleware p request now newReply \<sigma>;
          r' = (if sent r then r else status code r)
      in (r', emitFinish r' \<sigma>'))"

text \<open>Requests served one after the other, each given as (arrival time, handler status).\<close>

fun sequentialRequests ::
  "RateLimitConfig \<Rightarrow> FastifyRequest \<Rightarrow> (int \<times> int) list \<Rightarrow> store_state \<Rightarrow> FastifyReply list \<times> store_state" where
  "sequentialRequests p request [] \<sigma> = ([], \<sigma>)"
| "sequentialRequests p request ((now, code) # evs) \<sigma> =
     (let (r, \<sigma>') = sequentialRequest p request now code \<sigma>;
          (rs, \<sigma>'') = sequentialRequests p request evs \<sigma>'
      in (r # rs, \<sigma>''))"

definition emptyStore :: store_state where
  "emptyStore = \<lparr>heap = [], rateLimitStore = Map.empty\<rparr>"

subsection \<open>Auxiliary notions for the statements\<close>

text \<open>The map holds, under \<open>key\<close>, the object at address \<open>a\<close>, whose value is \<open>d\<close>.\<close>

definition holds :: "store_state \<Rightarrow> string \<Rightarrow> addr \<Rightarrow> RateLimitData \<Rightarrow> bool" where
  "holds \<sigma> key a d = (rateLimitStore \<sigma> key = Some a \<and> a < length (heap \<sigma>) \<and> heap \<sigma> ! a = d)"

text \<open>The policy and the client of the first two scenarios of the specification.\<close>

definition policy3 :: RateLimitConfig where
  "policy3 = destructure (noOptions\<lparr>windowMs_opt := Some 60000, max_opt := Some 3\<rparr>)"

definition client :: FastifyRequest where
  "client = \<lparr>ip = ''1.2.3.4'', url = ''/api/v1/todos'', routerPath = ''/api/v1/todos''\<rparr>"

text \<open>What \<^verbatim>\<open>rateLimitStore.get(key)\<close> returns: the object stored under the key, if any.\<close>

definition storedData :: "store_state \<Rightarrow> string \<Rightarrow> RateLimitData option" where
  "storedData \<sigma> key = map_option (\<lambda>a. heap \<sigma> ! a) (rateLimitStore \<sigma> key)"

text \<open>No key of the map refers to an address outside the heap.\<close>

definition wellFormed :: "store_state \<Rightarrow> bool" where
  "wellFormed \<sigma> = (\<forall>k a. rateLimitStore \<sigma> k = Some a \<longrightarrow> a < length (heap \<sigma>))"

text \<open>
  The count a middleware call at time \<open>now\<close> finds for the key before it decides: the
  count of the live record, and 0 when the record is missing or expired.
\<close>

definition countSeen :: "store_state \<Rightarrow> string \<Rightarrow> int \<Rightarrow> int" where
  "countSeen \<sigma> key now =
     (case storedData \<sigma> key of
        None \<Rightarrow> 0
      | Some d \<Rightarrow> if resetTime d \<le> now then 0 else count d)"

subsection \<open>The hook chain\<close>

text \<open>
  Modelled from the spec: the pipeline orchestrator of section 4.4, which in the
  repository is the framework's own hook runner (\<^verbatim>\<open>fastify.addHook('preHandler', ...)\<close>,
  route-level \<^verbatim>\<open>preHandler\<close> arrays) and is not part of the sources. Stages run in
  registration order; once a stage has sent the reply no later stage is invoked, and the
  route handler runs only if no stage has sent. The result carries the names of the
  stages that were invoked.
\<close>

type_synonym stage = "string \<times> (FastifyReply \<Rightarrow> store_state \<Rightarrow> FastifyReply \<times> store_state)"

fun runHooks :: "stage list \<Rightarrow> FastifyReply \<Rightarrow> store_state \<Rightarrow> string list \<times> FastifyReply \<times> store_state" where
  "runHooks [] r \<sigma> = ([], r, \<sigma>)"
| "runHooks ((name, h) # hs) r \<sigma> =
     (let (r', \<sigma>') = h r \<sigma>
      in if sent r' then ([name], r', \<sigma>')
         else (let (names, r'', \<sigma>'') = runHooks hs r' \<sigma>' in (name # names, r'', \<sigma>'')))"

definition handleRequest ::
  "stage list \<Rightarrow> stage \<Rightarrow> FastifyReply \<Rightarrow> store_state \<Rightarrow> string list \<times> FastifyReply \<times> store_state" where
  "handleRequest hooks handler r \<sigma> =
     (let (names, r', \<sigma>') = runHooks hooks r \<sigma>
      in if sent r' then (names, r', \<sigma>')
         else (let (r'', \<sigma>'') = snd handler r' \<sigma>' in (names @ [fst handler], r'', \<sigma>'')))"

text \<open>A record whose count has reached the limit of \<open>policy3\<close>, inside its window.\<close>

definition exhaustedStore :: store_state where
  "exhaustedStore = \<lparr>heap = [\<lparr>count = 3, resetTime = 61000\<rparr>], rateLimitStore = [''1.2.3.4'' \<mapsto> 0]\<rparr>"

text \<open>A downstream stage that answers 200 with an empty object.\<close>

definition okHandler :: stage where
  "okHandler = (''handler'', \<lambda>r \<sigma>. (send (JObject []) (status 200 r), \<sigma>))"

subsection \<open>The exported instances\<close>

definition strictOptions :: RateLimitOptions where
  "strictOptions = noOptions\<lparr>windowMs_opt := Some (5 * 60 * 1000), max_opt := Some 10,
     message_opt := Some ''Too many requests to this sensitive endpoint''\<rparr>"

definition authOptions :: RateLimitOptions where
  "authOptions = noOptions\<lparr>windowMs_opt := Some (15 * 60 * 1000), max_opt := Some 5,
     message_opt := Some ''Too many authentication attempts'',
     skipSuccessfulRequests_opt := Some True\<rparr>"

text \<open>The export \<^verbatim>\<open>rateLimitMiddleware = createRateLimitMiddleware()\<close>.\<close>

definition defaultRateLimitMiddleware ::
  "FastifyRequest \<Rightarrow> int \<Rightarrow> FastifyReply \<Rightarrow> store_state \<Rightarrow> FastifyReply \<times> store_state" where
  "defaultRateLimitMiddleware = createRateLimitMiddleware noOptions"

definition strictRateLimitMiddleware ::
  "FastifyRequest \<Rightarrow> int \<Rightarrow> FastifyReply \<Rightarrow> store_state \<Rightarrow> FastifyReply \<times> store_state" where
  "strictRateLimitMiddleware = createRateLimitMiddleware strictOptions"

definition authRateLimitMiddleware ::
  "FastifyRequest \<Rightarrow> int \<Rightarrow> FastifyReply \<Rightarrow> store_state \<Rightarrow> FastifyReply \<times> store_state" where
  "authRateLimitMiddleware = createRateLimitMiddleware authOptions"

text \<open>The policy of the third scenario of the specification.\<close>

definition policy5 :: RateLimitConfig where
  "policy5 = destructure (noOptions\<lparr>max_opt := Some 5, skipFailedRequests_opt := Some True\<rparr>)"

text \<open>The policy of the fifth scenario of the specification.\<close>

definition policy1 :: RateLimitConfig where
  "policy1 = destructure (noOptions\<lparr>max_opt := Some 1\<rparr>)"

subsection \<open>Route scope\<close>

text \<open>
  \<^verbatim>\<open>MiddlewareOptions\<close> and \<^verbatim>\<open>BaseMiddleware.shouldSkip\<close> of \<^verbatim>\<open>docs/tasks/05.md\<close>. Every
  field is optional; an array is truthy even when empty, and an absent \<^verbatim>\<open>enabled\<close> is
  falsy. A middleware handles a request when \<open>shouldSkip\<close> is false.
\<close>

record MiddlewareOptions =
  enabled :: "bool option"
  skipRoutes :: "string list option"
  onlyRoutes :: "string list option"

definition shouldSkip :: "MiddlewareOptions \<Rightarrow> FastifyRequest \<Rightarrow> bool" where
  "shouldSkip options request =
     (let route = routerPath request
      in if (case onlyRoutes options of None \<Rightarrow> False | Some routes \<Rightarrow> route \<notin> set routes) then True
         else if (case skipRoutes options of None \<Rightarrow> False | Some routes \<Rightarrow> route \<in> set routes) then True
         else (case enabled options of None \<Rightarrow> True | Some e \<Rightarrow> \<not> e))"

text \<open>\<^verbatim>\<open>s.endsWith(t)\<close>, \<^verbatim>\<open>s.startsWith(t)\<close> and \<^verbatim>\<open>s.slice(0, -n)\<close>.\<close>

definition endsWith :: "string \<Rightarrow> string \<Rightarrow> bool" where
  "endsWith s t = (length t \<le> length s \<and> drop (length s - length t) s = t)"

definition startsWith :: "string \<Rightarrow> string \<Rightarrow> bool" where
  "startsWith s t = (take (length t) s = t)"

definition sliceEnd :: "string \<Rightarrow> nat \<Rightarrow> string" where
  "sliceEnd s n = take (length s - n) s"

text \<open>
  The \<^verbatim>\<open>onRequest\<close> hook that guards the JWT middleware in the same document: its local
  \<^verbatim>\<open>shouldSkip\<close>, computed from \<^verbatim>\<open>config.auth.jwt.skipRoutes || []\<close> and \<^verbatim>\<open>request.url\<close>.
\<close>

definition shouldSkip_hook :: "string list option \<Rightarrow> FastifyRequest \<Rightarrow> bool" where
  "shouldSkip_hook configured request =
     (let routes = (case configured of None \<Rightarrow> [] | Some rs \<Rightarrow> rs)
      in list_ex (\<lambda>route. if endsWith route ''/*''
                            then startsWith (url request) (sliceEnd route 2)
                            else url request = route) routes)"

text \<open>Requests of the examples: the path is both the URL and the route template.\<close>

definition requestTo :: "string \<Rightarrow> FastifyRequest" where
  "requestTo path = \<lparr>ip = ''1.2.3.4'', url = path, routerPath = path\<rparr>"

section \<open>Properties\<close>


lemma heap_deleteExpired: "heap (deleteExpired now \<sigma>) = heap \<sigma>"
  by (simp add: deleteExpired_def)

lemma store_deleteExpired:
  "rateLimitStore (deleteExpired now \<sigma>) k =
     (case rateLimitStore \<sigma> k of None \<Rightarrow> None
      | Some a \<Rightarrow> if resetTime (heap \<sigma> ! a) \<le> now then None else Some a)"
  by (simp add: deleteExpired_def)

lemma getOrCreate_live:
  assumes "rateLimitStore \<sigma> key = Some a" and "now < resetTime (heap \<sigma> ! a)"
  shows "getOrCreate p key now (deleteExpired now \<sigma>) = (a, deleteExpired now \<sigma>)"
  using assms by (simp add: getOrCreate_def store_deleteExpired heap_deleteExpired)

lemma getOrCreate_absent:
  assumes "rateLimitStore \<sigma> key = None \<or> (\<exists>a. rateLimitStore \<sigma> key = Some a \<and> resetTime (heap \<sigma> ! a) \<le> now)"
  shows "getOrCreate p key now (deleteExpired now \<sigma>) = createData p key now (deleteExpired now \<sigma>)"
  using assms by (auto simp add: getOrCreate_def store_deleteExpired)

lemma middleware_live:
  assumes "rateLimitStore \<sigma> (keyGenerator p request) = Some a" and "now < resetTime (heap \<sigma> ! a)"
  shows "rateLimitMiddleware p request now reply \<sigma> =
           (if count (heap \<sigma> ! a) \<ge> max' p
            then (tooManyRequests p (heap \<sigma> ! a) now reply, deleteExpired now \<sigma>)
            else (admit p (keyGenerator p request) a (heap \<sigma> ! a) reply, deleteExpired now \<sigma>))"
  using assms by (simp add: rateLimitMiddleware_def getOrCreate_live heap_deleteExpired)

lemma middleware_absent:
  assumes "rateLimitStore \<sigma> (keyGenerator p request) = None
           \<or> (\<exists>a. rateLimitStore \<sigma> (keyGenerator p request) = Some a \<and> resetTime (heap \<sigma> ! a) \<le> now)"
  shows "rateLimitMiddleware p request now reply \<sigma> =
           (let d = \<lparr>count = 0, resetTime = now + windowMs p\<rparr>;
                \<sigma>' = snd (createData p (keyGenerator p request) now (deleteExpired now \<sigma>))
            in if 0 \<ge> max' p
               then (tooManyRequests p d now reply, \<sigma>')
               else (admit p (keyGenerator p request) (length (heap \<sigma>)) d reply, \<sigma>'))"
  using assms
  by (simp add: rateLimitMiddleware_def getOrCreate_absent createData_def heap_deleteExpired Let_def)

lemma sent_tooManyRequests: "sent (tooManyRequests p d now reply)"
  by (simp add: tooManyRequests_def sent_def send_def Let_def)

lemma payload_admit: "payload (admit p key a d reply) = payload reply"
  by (simp add: admit_def Let_def header_def on_finish_def)

lemma onFinish_admit: "onFinish (admit p key a d reply) = onFinish reply @ [finishListener p key a]"
  by (simp add: admit_def Let_def header_def on_finish_def)

lemma remaining_admit:
  "standardHeaders p \<Longrightarrow> headers (admit p key a d reply) ''RateLimit-Remaining'' = Some (Text (toString (max' p - count d - 1)))"
  by (simp add: admit_def Let_def header_def on_finish_def)


lemma emitFinish_admit_new:
  "emitFinish (status code (admit p key a d newReply)) \<sigma> = finishListener p key a code \<sigma>"
  by (simp add: emitFinish_def status_def onFinish_admit newReply_def)

lemma emitFinish_tooManyRequests_new:
  "emitFinish (tooManyRequests p d now newReply) \<sigma> = \<sigma>"
  by (simp add: emitFinish_def tooManyRequests_def Let_def send_def status_def header_def newReply_def)

lemma sent_status_admit_new: "\<not> sent (admit p key a d newReply)"
  by (simp add: sent_def payload_admit newReply_def)

lemma sequentialRequest_live:
  assumes "rateLimitStore \<sigma> (keyGenerator p request) = Some a" and "now < resetTime (heap \<sigma> ! a)"
  shows "sequentialRequest p request now code \<sigma> =
           (if count (heap \<sigma> ! a) \<ge> max' p
            then (tooManyRequests p (heap \<sigma> ! a) now newReply, deleteExpired now \<sigma>)
            else (status code (admit p (keyGenerator p request) a (heap \<sigma> ! a) newReply),
                  finishListener p (keyGenerator p request) a code (deleteExpired now \<sigma>)))"
  using assms
  by (simp add: sequentialRequest_def middleware_live sent_tooManyRequests sent_status_admit_new
      emitFinish_admit_new emitFinish_tooManyRequests_new)

lemma sequentialRequest_absent:
  assumes "rateLimitStore \<sigma> (keyGenerator p request) = None
           \<or> (\<exists>a. rateLimitStore \<sigma> (keyGenerator p request) = Some a \<and> resetTime (heap \<sigma> ! a) \<le> now)"
  shows "sequentialRequest p request now code \<sigma> =
           (let d = \<lparr>count = 0, resetTime = now + windowMs p\<rparr>;
                \<sigma>' = snd (createData p (keyGenerator p request) now (deleteExpired now \<sigma>))
            in if 0 \<ge> max' p
               then (tooManyRequests p d now newReply, \<sigma>')
               else (status code (admit p (keyGenerator p request) (length (heap \<sigma>)) d newReply),
                     finishListener p (keyGenerator p request) (length (heap \<sigma>)) code \<sigma>'))"
  using assms
  by (simp add: sequentialRequest_def middleware_absent sent_tooManyRequests sent_status_admit_new
      emitFinish_admit_new emitFinish_tooManyRequests_new Let_def)

lemma holds_deleteExpired:
  "holds \<sigma> key a d \<Longrightarrow> now < resetTime d \<Longrightarrow> holds (deleteExpired now \<sigma>) key a d"
  by (simp add: holds_def store_deleteExpired heap_deleteExpired)

lemma holds_createData:
  "holds (snd (createData p key now \<sigma>)) key (length (heap \<sigma>)) \<lparr>count = 0, resetTime = now + windowMs p\<rparr>"
  by (simp add: holds_def createData_def)

lemma holds_finishListener:
  "holds \<sigma> key a d \<Longrightarrow> shouldCount p code \<Longrightarrow>
   holds (finishListener p key a code \<sigma>) key a (d\<lparr>count := count d + 1\<rparr>)"
  by (simp add: holds_def finishListener_def)

lemma finishListener_skip: "\<not> shouldCount p code \<Longrightarrow> finishListener p key a code \<sigma> = \<sigma>"
  by (simp add: finishListener_def)

lemma headers_status: "headers (status c r) = headers r"
  by (simp add: status_def)

lemma payload_status: "payload (status c r) = payload r"
  by (simp add: status_def)

lemma sequentialRequests_counted:
  assumes "holds \<sigma> (keyGenerator p request) a d"
    and "\<forall>(t, c) \<in> set evs. t < resetTime d \<and> shouldCount p c"
    and "count d + int (length evs) \<le> max' p"
    and "standardHeaders p"
  shows "map sent (fst (sequentialRequests p request evs \<sigma>)) = replicate (length evs) False
       \<and> map (\<lambda>r. headers r ''RateLimit-Remaining'') (fst (sequentialRequests p request evs \<sigma>))
           = map (\<lambda>i. Some (Text (toString (max' p - count d - int (Suc i))))) [0..<length evs]
       \<and> holds (snd (sequentialRequests p request evs \<sigma>)) (keyGenerator p request) a
           (d\<lparr>count := count d + int (length evs)\<rparr>)"
  using assms
proof (induction evs arbitrary: \<sigma> d)
  case Nil
  then show ?case by simp
next
  case (Cons ev evs)
  obtain now code where ev: "ev = (now, code)" by (cases ev)
  let ?key = "keyGenerator p request"
  let ?d' = "d\<lparr>count := count d + 1\<rparr>"
  let ?r = "status code (admit p ?key a d newReply)"
  let ?\<sigma>' = "finishListener p ?key a code (deleteExpired now \<sigma>)"
  from Cons.prems ev have live: "now < resetTime d" and cnt: "shouldCount p code"
    and below: "count d < max' p" by auto
  from Cons.prems(1) have st: "rateLimitStore \<sigma> ?key = Some a" and hd: "heap \<sigma> ! a = d"
    by (simp_all add: holds_def)
  have step: "sequentialRequest p request now code \<sigma> = (?r, ?\<sigma>')"
    using sequentialRequest_live [OF st, of now code] live below hd by simp
  have h': "holds ?\<sigma>' ?key a ?d'"
    using holds_finishListener [OF holds_deleteExpired [OF Cons.prems(1) live] cnt] .
  have IH: "map sent (fst (sequentialRequests p request evs ?\<sigma>')) = replicate (length evs) False
       \<and> map (\<lambda>r. headers r ''RateLimit-Remaining'') (fst (sequentialRequests p request evs ?\<sigma>'))
           = map (\<lambda>i. Some (Text (toString (max' p - count ?d' - int (Suc i))))) [0..<length evs]
       \<and> holds (snd (sequentialRequests p request evs ?\<sigma>')) ?key a
           (?d'\<lparr>count := count ?d' + int (length evs)\<rparr>)"
    using Cons.IH [OF h'] Cons.prems by auto
  have up: "[0..<length (ev # evs)] = 0 # map Suc [0..<length evs]"
    by (simp add: upt_conv_Cons map_Suc_upt del: upt_Suc)
  have r1: "\<not> sent ?r" by (simp add: sent_def payload_status payload_admit newReply_def)
  have r2: "headers ?r ''RateLimit-Remaining'' = Some (Text (toString (max' p - count d - 1)))"
    using Cons.prems(4) by (simp add: headers_status remaining_admit)
  show ?case
    unfolding up using IH r1 r2
    by (simp add: ev step split_beta Let_def comp_def algebra_simps)
qed

lemma ceilSeconds_mono: "a \<le> b \<Longrightarrow> ceilSeconds a \<le> ceilSeconds b"
  by (simp add: ceilSeconds_def zdiv_mono1)

lemma ceilSeconds_ceiling: "ceilSeconds ms = \<lceil>real_of_int ms / 1000\<rceil>"
proof -
  have "\<lfloor>real_of_int (- ms) / real_of_int 1000\<rfloor> = (- ms) div 1000"
    by (rule floor_divide_of_int_eq)
  then show ?thesis by (simp add: ceilSeconds_def ceiling_def)
qed


lemma sequentialRequests_append:
  "sequentialRequests p request (xs @ ys) \<sigma> =
     (fst (sequentialRequests p request xs \<sigma>)
        @ fst (sequentialRequests p request ys (snd (sequentialRequests p request xs \<sigma>))),
      snd (sequentialRequests p request ys (snd (sequentialRequests p request xs \<sigma>))))"
  by (induction xs arbitrary: \<sigma>) (auto simp: split_beta Let_def)

lemma statusCode_tooManyRequests: "statusCode (tooManyRequests p d now reply) = 429"
  by (simp add: tooManyRequests_def Let_def send_def status_def)

lemma retryAfter_tooManyRequests:
  "headers (tooManyRequests p d now reply) ''Retry-After''
     = Some (Text (toString (ceilSeconds (resetTime d - now))))"
  by (simp add: tooManyRequests_def Let_def send_def status_def header_def)

lemma sequentialRequests_exhaust:
  assumes h: "holds \<sigma> (keyGenerator p request) a d"
    and evs: "\<forall>(t, c) \<in> set evs. t < resetTime d \<and> shouldCount p c"
    and len: "count d + int (length evs) = max' p"
    and std: "standardHeaders p"
    and t': "t' < resetTime d"
  shows "butlast (fst (sequentialRequests p request (evs @ [(t', c')]) \<sigma>))
           = fst (sequentialRequests p request evs \<sigma>)
       \<and> last (fst (sequentialRequests p request (evs @ [(t', c')]) \<sigma>))
           = tooManyRequests p (d\<lparr>count := max' p\<rparr>) t' newReply"
proof -
  let ?\<sigma>' = "snd (sequentialRequests p request evs \<sigma>)"
  let ?key = "keyGenerator p request"
  have "holds ?\<sigma>' ?key a (d\<lparr>count := count d + int (length evs)\<rparr>)"
    using sequentialRequests_counted [OF h evs _ std] len by simp
  then have st: "rateLimitStore ?\<sigma>' ?key = Some a" and hd: "heap ?\<sigma>' ! a = d\<lparr>count := max' p\<rparr>"
    using len by (simp_all add: holds_def)
  have "sequentialRequest p request t' c' ?\<sigma>'
          = (tooManyRequests p (d\<lparr>count := max' p\<rparr>) t' newReply, deleteExpired t' ?\<sigma>')"
    using sequentialRequest_live [OF st, of t' c'] t' hd by simp
  then show ?thesis
    by (simp add: sequentialRequests_append split_beta Let_def)
qed

text \<open>
  Claim C1. For a key without a record and a policy with \<open>max = m\<close> and standard headers,
  \<open>m\<close> requests served one after the other inside the window opened by the first one,
  each ending with a status that is counted, are all forwarded, the \<open>i\<close>-th with
  \<^verbatim>\<open>RateLimit-Remaining\<close> \<open>m - i\<close>; one more request inside the window is answered 429, with
  \<^verbatim>\<open>Retry-After\<close> at most the window length in seconds.
\<close>

theorem C1_sequential_quota:
  assumes fresh: "rateLimitStore \<sigma> (keyGenerator p request) = None"
    and std: "standardHeaders p"
    and len: "int (length evs) = max' p"
    and t0: "t0 = fst (hd (evs @ [(t', c')]))"
    and window: "\<forall>(t, c) \<in> set (evs @ [(t', c')]). t0 \<le> t \<and> t < t0 + windowMs p"
    and counted: "\<forall>(t, c) \<in> set evs. shouldCount p c"
    and run: "sequentialRequests p request (evs @ [(t', c')]) \<sigma> = (rs, \<sigma>')"
  shows "map sent (butlast rs) = replicate (length evs) False
       \<and> map (\<lambda>r. headers r ''RateLimit-Remaining'') (butlast rs)
           = map (\<lambda>i. Some (Text (toString (max' p - int (Suc i))))) [0..<length evs]
       \<and> statusCode (last rs) = 429 \<and> sent (last rs)
       \<and> headers (last rs) ''Retry-After'' = Some (Text (toString (ceilSeconds (t0 + windowMs p - t'))))
       \<and> ceilSeconds (t0 + windowMs p - t') \<le> ceilSeconds (windowMs p)"
proof (cases evs)
  case Nil
  let ?d = "\<lparr>count = 0, resetTime = t' + windowMs p\<rparr>"
  from Nil len have m: "max' p = 0" by simp
  from Nil t0 have t0': "t0 = t'" by simp
  have "sequentialRequest p request t' c' \<sigma>
          = (tooManyRequests p ?d t' newReply,
             snd (createData p (keyGenerator p request) t' (deleteExpired t' \<sigma>)))"
    using sequentialRequest_absent [of \<sigma> p request t' c'] fresh m by (simp add: Let_def)
  with run Nil have "rs = [tooManyRequests p ?d t' newReply]"
    by (auto simp: split_beta Let_def)
  then show ?thesis
    using Nil t0'
    by (simp add: statusCode_tooManyRequests sent_tooManyRequests retryAfter_tooManyRequests)
next
  case (Cons ev rest)
  obtain c0 where ev: "ev = (t0, c0)" using t0 Cons by (cases ev) simp
  let ?key = "keyGenerator p request"
  let ?d = "\<lparr>count = 0, resetTime = t0 + windowMs p\<rparr>"
  let ?d1 = "\<lparr>count = 1, resetTime = t0 + windowMs p\<rparr>"
  let ?r = "status c0 (admit p ?key (length (heap \<sigma>)) ?d newReply)"
  let ?\<sigma>1 = "finishListener p ?key (length (heap \<sigma>)) c0
               (snd (createData p ?key t0 (deleteExpired t0 \<sigma>)))"
  from Cons len have pos: "0 < max' p" by auto
  from counted Cons ev have cnt0: "shouldCount p c0" by simp
  have first: "sequentialRequest p request t0 c0 \<sigma> = (?r, ?\<sigma>1)"
    using sequentialRequest_absent [of \<sigma> p request t0 c0] fresh pos by (simp add: Let_def)
  have "holds (snd (createData p ?key t0 (deleteExpired t0 \<sigma>))) ?key (length (heap \<sigma>)) ?d"
    using holds_createData [of p ?key t0 "deleteExpired t0 \<sigma>"] by (simp add: heap_deleteExpired)
  from holds_finishListener [OF this cnt0]
  have h1: "holds ?\<sigma>1 ?key (length (heap \<sigma>)) ?d1" by simp
  have rest_ok: "\<forall>(t, c) \<in> set rest. t < resetTime ?d1 \<and> shouldCount p c"
    using window counted Cons by auto
  have len1: "count ?d1 + int (length rest) = max' p" using len Cons by simp
  have t'_ok: "t' < resetTime ?d1" and t'_ge: "t0 \<le> t'" using window by auto
  note ex = sequentialRequests_exhaust [OF h1 rest_ok len1 std t'_ok, of c']
  note co = sequentialRequests_counted [OF h1 rest_ok _ std]
  have rs: "rs = ?r # fst (sequentialRequests p request (rest @ [(t', c')]) ?\<sigma>1)"
    using run Cons ev first by (auto simp: split_beta Let_def)
  have ne: "fst (sequentialRequests p request (rest @ [(t', c')]) ?\<sigma>1) \<noteq> []"
    by (simp add: sequentialRequests_append split_beta Let_def)
  have bl: "butlast rs = ?r # fst (sequentialRequests p request rest ?\<sigma>1)"
    using rs ne ex by simp
  have la: "last rs = tooManyRequests p (?d1\<lparr>count := max' p\<rparr>) t' newReply"
    using rs ne ex by simp
  have up: "[0..<length evs] = 0 # map Suc [0..<length rest]"
    using Cons by (simp add: upt_conv_Cons map_Suc_upt del: upt_Suc)
  have r1: "\<not> sent ?r" by (simp add: sent_def payload_status payload_admit newReply_def)
  have r2: "headers ?r ''RateLimit-Remaining'' = Some (Text (toString (max' p - 1)))"
    using std by (simp add: headers_status remaining_admit)
  have mono: "ceilSeconds (t0 + windowMs p - t') \<le> ceilSeconds (windowMs p)"
    using t'_ge by (intro ceilSeconds_mono) simp
  show ?thesis
    unfolding up bl la using co len1 r1 r2 mono Cons
    by (simp add: statusCode_tooManyRequests sent_tooManyRequests retryAfter_tooManyRequests
        comp_def algebra_simps)
qed


lemma policy3_simps:
  "windowMs policy3 = 60000" "max' policy3 = 3" "standardHeaders policy3"
  "\<not> skipSuccessfulRequests policy3" "\<not> skipFailedRequests policy3"
  "keyGenerator policy3 = ip"
  by (simp_all add: policy3_def destructure_def orDefault_def noOptions_def)

theorem C1_sequential_quota_witness:
  "map sent (butlast (fst (sequentialRequests policy3 client
       [(1000, 200), (2000, 200), (3000, 200), (4000, 200)] emptyStore))) = [False, False, False]
   \<and> map (\<lambda>r. headers r ''RateLimit-Remaining'') (butlast (fst (sequentialRequests policy3 client
       [(1000, 200), (2000, 200), (3000, 200), (4000, 200)] emptyStore)))
       = [Some (Text ''2''), Some (Text ''1''), Some (Text ''0'')]
   \<and> statusCode (last (fst (sequentialRequests policy3 client
       [(1000, 200), (2000, 200), (3000, 200), (4000, 200)] emptyStore))) = 429
   \<and> headers (last (fst (sequentialRequests policy3 client
       [(1000, 200), (2000, 200), (3000, 200), (4000, 200)] emptyStore))) ''Retry-After''
       = Some (Text ''57'')"
proof -
  let ?evs = "[(1000, 200), (2000, 200), (3000, 200)] :: (int \<times> int) list"
  let ?run = "sequentialRequests policy3 client (?evs @ [(4000, 200)]) emptyStore"
  have fresh: "rateLimitStore emptyStore (keyGenerator policy3 client) = None"
    by (simp add: emptyStore_def)
  have len: "int (length ?evs) = max' policy3" by (simp add: policy3_simps)
  have t0: "(1000::int) = fst (hd (?evs @ [(4000, 200)]))" by simp
  have window: "\<forall>(t, c) \<in> set (?evs @ [(4000, 200)]). 1000 \<le> t \<and> t < 1000 + windowMs policy3"
    by (simp add: policy3_simps)
  have counted: "\<forall>(t, c) \<in> set ?evs. shouldCount policy3 c"
    by (simp add: shouldCount_def policy3_simps)
  have run: "?run = (fst ?run, snd ?run)" by simp
  from C1_sequential_quota [OF fresh policy3_simps(3) len t0 window counted run]
  show ?thesis
    by (simp add: policy3_simps toString_def digits.simps digit_def ceilSeconds_def)
qed

subsection \<open>What a middleware call finds and leaves\<close>


lemma middleware_cases:
  obtains (live) a where "rateLimitStore \<sigma> (keyGenerator p request) = Some a"
      "now < resetTime (heap \<sigma> ! a)"
  | (absent) "rateLimitStore \<sigma> (keyGenerator p request) = None
           \<or> (\<exists>a. rateLimitStore \<sigma> (keyGenerator p request) = Some a \<and> resetTime (heap \<sigma> ! a) \<le> now)"
  by (cases "rateLimitStore \<sigma> (keyGenerator p request)") (auto simp: not_le [symmetric])

lemma countSeen_live:
  "rateLimitStore \<sigma> key = Some a \<Longrightarrow> now < resetTime (heap \<sigma> ! a) \<Longrightarrow>
   countSeen \<sigma> key now = count (heap \<sigma> ! a)"
  by (simp add: countSeen_def storedData_def)

lemma countSeen_absent:
  "rateLimitStore \<sigma> key = None \<or> (\<exists>a. rateLimitStore \<sigma> key = Some a \<and> resetTime (heap \<sigma> ! a) \<le> now)
   \<Longrightarrow> countSeen \<sigma> key now = 0"
  by (auto simp add: countSeen_def storedData_def)

lemma snd_createData_store:
  "rateLimitStore (snd (createData p key now \<sigma>)) key = Some (length (heap \<sigma>))"
  by (simp add: createData_def)

lemma snd_createData_heap:
  "heap (snd (createData p key now \<sigma>)) = heap \<sigma> @ [\<lparr>count = 0, resetTime = now + windowMs p\<rparr>]"
  by (simp add: createData_def)

text \<open>The middleware decides on the count it finds, and leaves that count in the store.\<close>

lemma middleware_decision:
  "sent (fst (rateLimitMiddleware p request now newReply \<sigma>))
     = (max' p \<le> countSeen \<sigma> (keyGenerator p request) now)"
proof (cases rule: middleware_cases [of \<sigma> p request now])
  case (live a)
  then show ?thesis
    by (simp add: middleware_live countSeen_live sent_tooManyRequests sent_status_admit_new)
next
  case absent
  then show ?thesis
    by (simp add: middleware_absent countSeen_absent sent_tooManyRequests sent_status_admit_new Let_def)
qed

lemma middleware_stored:
  assumes "wellFormed \<sigma>"
  shows "\<exists>a d. holds (snd (rateLimitMiddleware p request now reply \<sigma>)) (keyGenerator p request) a d
           \<and> count d = countSeen \<sigma> (keyGenerator p request) now"
proof (cases rule: middleware_cases [of \<sigma> p request now])
  case (live a)
  with assms have "a < length (heap \<sigma>)" by (simp add: wellFormed_def)
  with live show ?thesis
    by (auto simp add: middleware_live countSeen_live holds_def store_deleteExpired heap_deleteExpired)
next
  case absent
  then show ?thesis
    by (simp add: middleware_absent countSeen_absent Let_def holds_def snd_createData_store
        snd_createData_heap heap_deleteExpired)
qed

subsection \<open>Accounting happens when the response finishes\<close>


lemma storedData_holds: "holds \<sigma> key a d \<Longrightarrow> storedData \<sigma> key = Some d"
  by (simp add: holds_def storedData_def)

lemma onFinish_middleware_new:
  assumes "\<not> sent (fst (rateLimitMiddleware p request now newReply \<sigma>))"
  shows "\<exists>a. rateLimitStore (snd (rateLimitMiddleware p request now newReply \<sigma>)) (keyGenerator p request) = Some a
           \<and> onFinish (fst (rateLimitMiddleware p request now newReply \<sigma>))
               = [finishListener p (keyGenerator p request) a]"
proof (cases rule: middleware_cases [of \<sigma> p request now])
  case (live a)
  with assms show ?thesis
    by (auto simp add: middleware_live sent_tooManyRequests onFinish_admit newReply_def
        store_deleteExpired split: if_splits)
next
  case absent
  with assms show ?thesis
    by (auto simp add: middleware_absent sent_tooManyRequests onFinish_admit newReply_def Let_def
        snd_createData_store heap_deleteExpired split: if_splits)
qed

text \<open>
  Claim C2, as amended. A forwarded request leaves in the store the count it found
  (0 for a new window), so the count does not include the request while the downstream
  handler runs. When the response finishes, the count grows by one if the final status
  is counted, and stays as it is otherwise.
\<close>

theorem C2_count_deferred_to_finish:
  assumes wf: "wellFormed \<sigma>"
    and mw: "rateLimitMiddleware p request now newReply \<sigma> = (r, \<sigma>')"
    and fwd: "\<not> sent r"
  shows "\<exists>d. storedData \<sigma>' (keyGenerator p request) = Some d
           \<and> count d = countSeen \<sigma> (keyGenerator p request) now
           \<and> count d < max' p
           \<and> storedData (emitFinish (status code r) \<sigma>') (keyGenerator p request)
               = Some (d\<lparr>count := count d + (if shouldCount p code then 1 else 0)\<rparr>)"
proof -
  let ?key = "keyGenerator p request"
  from middleware_stored [OF wf, of p request now newReply] mw
  obtain a d where h: "holds \<sigma>' ?key a d" and c: "count d = countSeen \<sigma> ?key now"
    by auto
  from onFinish_middleware_new [of p request now \<sigma>] mw fwd h
  have fin: "onFinish r = [finishListener p ?key a]" by (auto simp: holds_def)
  have lt: "count d < max' p"
    using middleware_decision [of p request now \<sigma>] mw fwd c by simp
  have em: "emitFinish (status code r) \<sigma>' = finishListener p ?key a code \<sigma>'"
    by (simp add: emitFinish_def status_def fin)
  have "storedData (finishListener p ?key a code \<sigma>') ?key
          = Some (d\<lparr>count := count d + (if shouldCount p code then 1 else 0)\<rparr>)"
  proof (cases "shouldCount p code")
    case True
    from holds_finishListener [OF h True] show ?thesis
      using True by (simp add: storedData_holds)
  next
    case False
    then show ?thesis using h by (simp add: finishListener_skip storedData_holds)
  qed
  with h c lt em show ?thesis by (auto simp add: storedData_holds)
qed

theorem C2_count_deferred_to_finish_witness:
  "\<exists>d. storedData (snd (rateLimitMiddleware policy3 client 1000 newReply emptyStore)) ''1.2.3.4'' = Some d
      \<and> count d = 0
      \<and> storedData (emitFinish (status 200 (fst (rateLimitMiddleware policy3 client 1000 newReply emptyStore)))
           (snd (rateLimitMiddleware policy3 client 1000 newReply emptyStore))) ''1.2.3.4''
          = Some (d\<lparr>count := 1\<rparr>)"
proof -
  let ?m = "rateLimitMiddleware policy3 client 1000 newReply emptyStore"
  have wf: "wellFormed emptyStore" by (simp add: wellFormed_def emptyStore_def)
  have mw: "?m = (fst ?m, snd ?m)" by simp
  have fwd: "\<not> sent (fst ?m)"
    by (simp add: middleware_decision countSeen_def storedData_def emptyStore_def policy3_simps)
  have seen: "countSeen emptyStore ''1.2.3.4'' 1000 = 0"
    by (simp add: countSeen_def storedData_def emptyStore_def)
  have key: "keyGenerator policy3 client = ''1.2.3.4''"
    by (simp add: policy3_simps client_def)
  have cnt: "shouldCount policy3 200"
    by (simp add: shouldCount_def policy3_simps)
  from C2_count_deferred_to_finish [OF wf mw fwd, of 200]
  show ?thesis
    unfolding key seen using cnt by auto
qed

theorem C2_counterexample:
  "\<not> sent (fst (rateLimitMiddleware policy3 client 1000 newReply emptyStore))
   \<and> map_option count (storedData (snd (rateLimitMiddleware policy3 client 1000 newReply emptyStore)) ''1.2.3.4'')
       = Some 0
   \<and> map_option count (storedData (snd (rateLimitMiddleware policy3 client 1000 newReply emptyStore)) ''1.2.3.4'')
       \<noteq> Some 1"
  by (simp add: rateLimitMiddleware_def getOrCreate_def createData_def deleteExpired_def
      emptyStore_def policy3_simps client_def storedData_def admit_def Let_def sent_def header_def
      on_finish_def newReply_def)

subsection \<open>Rejection\<close>


lemma payload_tooManyRequests:
  "payload (tooManyRequests p d now reply) = Some (rejectionBody p (ceilSeconds (resetTime d - now)))"
  by (simp add: tooManyRequests_def Let_def send_def)

text \<open>The reply of a rejecting call is built from the record the call leaves under the key.\<close>

lemma middleware_rejects:
  assumes "\<not> sent reply" and "sent (fst (rateLimitMiddleware p request now reply \<sigma>))"
  shows "\<exists>d. storedData (snd (rateLimitMiddleware p request now reply \<sigma>)) (keyGenerator p request) = Some d
           \<and> fst (rateLimitMiddleware p request now reply \<sigma>) = tooManyRequests p d now reply"
proof (cases rule: middleware_cases [of \<sigma> p request now])
  case (live a)
  with assms show ?thesis
    by (auto simp add: middleware_live storedData_def store_deleteExpired heap_deleteExpired
        sent_def payload_admit split: if_splits)
next
  case absent
  with assms show ?thesis
    by (auto simp add: middleware_absent storedData_def snd_createData_store snd_createData_heap
        heap_deleteExpired sent_def payload_admit Let_def split: if_splits)
qed

text \<open>
  Claim C3. When the stage rejects, the reply has status 429, the header
  \<^verbatim>\<open>Retry-After\<close> is the ceiling of (milliseconds until reset) / 1000 as a decimal string,
  the body is the object with \<^verbatim>\<open>error\<close>, \<^verbatim>\<open>message\<close> and \<^verbatim>\<open>retryAfter\<close> (the same
  number of seconds), and the hook chain invokes neither a later stage nor the handler.
\<close>

theorem C3_rejection_is_terminal_429:
  assumes unsent: "\<not> sent reply"
    and mw: "rateLimitMiddleware p request now reply \<sigma> = (r, \<sigma>')"
    and rejected: "sent r"
  shows "\<exists>d seconds. storedData \<sigma>' (keyGenerator p request) = Some d
           \<and> seconds = \<lceil>real_of_int (resetTime d - now) / 1000\<rceil>
           \<and> statusCode r = 429
           \<and> headers r ''Retry-After'' = Some (Text (toString seconds))
           \<and> payload r = Some (JObject [(''error'', JString ''Too Many Requests''),
                                         (''message'', JString (message p)),
                                         (''retryAfter'', JNumber seconds)])
           \<and> handleRequest ((name, rateLimitMiddleware p request now) # later) handler reply \<sigma>
               = ([name], r, \<sigma>')"
proof -
  from middleware_rejects [OF unsent, of p request now \<sigma>] mw rejected
  obtain d where d: "storedData \<sigma>' (keyGenerator p request) = Some d"
    and r: "r = tooManyRequests p d now reply" by auto
  have chain: "handleRequest ((name, rateLimitMiddleware p request now) # later) handler reply \<sigma>
                 = ([name], r, \<sigma>')"
    using mw rejected by (simp add: handleRequest_def)
  show ?thesis
    using d chain unfolding r
    by (simp add: statusCode_tooManyRequests retryAfter_tooManyRequests payload_tooManyRequests
        rejectionBody_def ceilSeconds_ceiling)
qed

theorem C3_rejection_is_terminal_429_witness:
  "statusCode (fst (rateLimitMiddleware policy3 client 4000 newReply exhaustedStore)) = 429
   \<and> headers (fst (rateLimitMiddleware policy3 client 4000 newReply exhaustedStore)) ''Retry-After''
       = Some (Text ''57'')
   \<and> payload (fst (rateLimitMiddleware policy3 client 4000 newReply exhaustedStore))
       = Some (JObject [(''error'', JString ''Too Many Requests''),
                        (''message'', JString ''Too many requests, please try again later''),
                        (''retryAfter'', JNumber 57)])
   \<and> fst (handleRequest [(''rateLimit'', rateLimitMiddleware policy3 client 4000),
                          (''auth'', \<lambda>r \<sigma>. (r, \<sigma>))] okHandler newReply exhaustedStore)
       = [''rateLimit'']"
proof -
  let ?m = "rateLimitMiddleware policy3 client 4000 newReply exhaustedStore"
  have unsent: "\<not> sent newReply" by (simp add: sent_def newReply_def)
  have mw: "?m = (fst ?m, snd ?m)" by simp
  have rejected: "sent (fst ?m)"
    by (simp add: middleware_decision countSeen_def storedData_def exhaustedStore_def
        policy3_simps client_def)
  have stored: "storedData (snd ?m) ''1.2.3.4'' = Some \<lparr>count = 3, resetTime = 61000\<rparr>"
    by (simp add: rateLimitMiddleware_def getOrCreate_def deleteExpired_def exhaustedStore_def
        policy3_simps client_def storedData_def Let_def)
  have key: "keyGenerator policy3 client = ''1.2.3.4''"
    by (simp add: policy3_simps client_def)
  have msg: "message policy3 = ''Too many requests, please try again later''"
    by (simp add: policy3_def destructure_def orDefault_def noOptions_def)
  have secs: "\<lceil>real_of_int (61000 - 4000) / 1000\<rceil> = (57::int)"
    by (simp add: ceilSeconds_ceiling [symmetric] ceilSeconds_def)
  have str: "toString 57 = ''57''"
    by (simp add: toString_def digits.simps digit_def)
  from C3_rejection_is_terminal_429 [OF unsent mw rejected, of "''rateLimit''"
      "[(''auth'', \<lambda>r \<sigma>. (r, \<sigma>))]" okHandler]
  show ?thesis
    unfolding key using stored secs msg str by auto
qed

subsection \<open>Headers\<close>


lemma toString_0: "toString 0 = ''0''"
  by (simp add: toString_def digits.simps digit_def)

lemma standard_tooManyRequests:
  "standardHeaders p \<Longrightarrow>
   headers (tooManyRequests p d now reply) ''RateLimit-Limit'' = Some (Text (toString (max' p)))
   \<and> headers (tooManyRequests p d now reply) ''RateLimit-Remaining'' = Some (Text ''0'')
   \<and> headers (tooManyRequests p d now reply) ''RateLimit-Reset'' = Some (IsoString (resetTime d))"
  by (simp add: tooManyRequests_def Let_def send_def status_def header_def)

lemma standard_admit:
  "standardHeaders p \<Longrightarrow>
   headers (admit p key a d reply) ''RateLimit-Limit'' = Some (Text (toString (max' p)))
   \<and> headers (admit p key a d reply) ''RateLimit-Remaining'' = Some (Text (toString (max' p - count d - 1)))
   \<and> headers (admit p key a d reply) ''RateLimit-Reset'' = Some (IsoString (resetTime d))"
  by (simp add: admit_def Let_def header_def on_finish_def)

text \<open>Either way the reply is built from the record the call leaves under the key.\<close>

lemma middleware_reply:
  "\<exists>a d. rateLimitStore (snd (rateLimitMiddleware p request now reply \<sigma>)) (keyGenerator p request) = Some a
         \<and> heap (snd (rateLimitMiddleware p request now reply \<sigma>)) ! a = d
         \<and> count d = countSeen \<sigma> (keyGenerator p request) now
         \<and> fst (rateLimitMiddleware p request now reply \<sigma>)
             = (if max' p \<le> count d then tooManyRequests p d now reply
                else admit p (keyGenerator p request) a d reply)"
proof (cases rule: middleware_cases [of \<sigma> p request now])
  case (live a)
  then show ?thesis
    by (simp add: middleware_live countSeen_live store_deleteExpired heap_deleteExpired)
next
  case absent
  then show ?thesis
    by (simp add: middleware_absent countSeen_absent snd_createData_store snd_createData_heap
        heap_deleteExpired Let_def)
qed

text \<open>
  Claim C4, as amended. With standard headers enabled, every call of the stage,
  admitting or rejecting, sets \<^verbatim>\<open>RateLimit-Limit\<close> to \<open>max\<close> as a decimal string,
  \<^verbatim>\<open>RateLimit-Reset\<close> to the ISO-8601 rendering of the \<open>resetTime\<close> of the record stored
  for the key, and \<^verbatim>\<open>RateLimit-Remaining\<close> to \<open>max 0 (max - (count + 1))\<close>, where
  \<open>count\<close> is the count of that record when the call runs: the requests of the window
  whose responses have finished and were counted. Requests whose responses have not
  finished yet are not in it.
\<close>

theorem C4_standard_headers:
  assumes std: "standardHeaders p"
    and mw: "rateLimitMiddleware p request now reply \<sigma> = (r, \<sigma>')"
  shows "\<exists>d totalHits. storedData \<sigma>' (keyGenerator p request) = Some d
           \<and> totalHits = count d + 1
           \<and> headers r ''RateLimit-Limit'' = Some (Text (toString (max' p)))
           \<and> headers r ''RateLimit-Remaining'' = Some (Text (toString (max 0 (max' p - totalHits))))
           \<and> headers r ''RateLimit-Reset'' = Some (IsoString (resetTime d))"
proof -
  from middleware_reply [of p request now reply \<sigma>] mw
  obtain a d where st: "rateLimitStore \<sigma>' (keyGenerator p request) = Some a"
    and d: "heap \<sigma>' ! a = d"
    and r: "r = (if max' p \<le> count d then tooManyRequests p d now reply
                 else admit p (keyGenerator p request) a d reply)"
    by auto
  have sd: "storedData \<sigma>' (keyGenerator p request) = Some d"
    using st d by (simp add: storedData_def)
  show ?thesis
  proof (cases "max' p \<le> count d")
    case True
    then have "max 0 (max' p - (count d + 1)) = 0" by simp
    with True sd r standard_tooManyRequests [OF std, of d now reply] show ?thesis
      by (simp add: toString_0)
  next
    case False
    then have "max 0 (max' p - (count d + 1)) = max' p - count d - 1" by simp
    with False sd r standard_admit [OF std, of "keyGenerator p request" a d reply] show ?thesis
      by (simp add: algebra_simps)
  qed
qed

theorem C4_standard_headers_witness:
  "headers (fst (rateLimitMiddleware policy3 client 4000 newReply exhaustedStore)) ''RateLimit-Limit''
     = Some (Text ''3'')
   \<and> headers (fst (rateLimitMiddleware policy3 client 4000 newReply exhaustedStore)) ''RateLimit-Remaining''
     = Some (Text ''0'')
   \<and> headers (fst (rateLimitMiddleware policy3 client 4000 newReply exhaustedStore)) ''RateLimit-Reset''
     = Some (IsoString 61000)
   \<and> headers (fst (rateLimitMiddleware policy3 client 1000 newReply emptyStore)) ''RateLimit-Remaining''
     = Some (Text ''2'')"
proof -
  let ?m = "rateLimitMiddleware policy3 client 4000 newReply exhaustedStore"
  let ?n = "rateLimitMiddleware policy3 client 1000 newReply emptyStore"
  have mw: "?m = (fst ?m, snd ?m)" and nw: "?n = (fst ?n, snd ?n)" by simp_all
  have key: "keyGenerator policy3 client = ''1.2.3.4''"
    by (simp add: policy3_simps client_def)
  have stored: "storedData (snd ?m) ''1.2.3.4'' = Some \<lparr>count = 3, resetTime = 61000\<rparr>"
    by (simp add: rateLimitMiddleware_def getOrCreate_def deleteExpired_def exhaustedStore_def
        policy3_simps client_def storedData_def Let_def)
  have stored': "storedData (snd ?n) ''1.2.3.4'' = Some \<lparr>count = 0, resetTime = 61000\<rparr>"
    by (simp add: rateLimitMiddleware_def getOrCreate_def deleteExpired_def createData_def
        emptyStore_def policy3_simps client_def storedData_def Let_def)
  have str: "toString 3 = ''3''" "toString 2 = ''2''"
    by (simp_all add: toString_def digits.simps digit_def)
  from C4_standard_headers [OF policy3_simps(3) mw] C4_standard_headers [OF policy3_simps(3) nw]
  show ?thesis
    unfolding key using stored stored' str by (auto simp: policy3_simps toString_0)
qed

text \<open>
  Three calls for a new key under limit 3, none of the responses finished: the second and
  the third call are the second and third hit of the window, and both still announce 2
  remaining, not 1 and 0.
\<close>

theorem C4_counterexample:
  "headers (fst (rateLimitMiddleware policy3 client 1000 newReply emptyStore)) ''RateLimit-Remaining''
     = Some (Text ''2'')
   \<and> headers (fst (rateLimitMiddleware policy3 client 1000 newReply
        (snd (rateLimitMiddleware policy3 client 1000 newReply emptyStore)))) ''RateLimit-Remaining''
     = Some (Text ''2'')
   \<and> headers (fst (rateLimitMiddleware policy3 client 1000 newReply
        (snd (rateLimitMiddleware policy3 client 1000 newReply emptyStore)))) ''RateLimit-Remaining''
     \<noteq> Some (Text (toString (max 0 (max' policy3 - 2))))
   \<and> headers (fst (rateLimitMiddleware policy3 client 1000 newReply
        (snd (rateLimitMiddleware policy3 client 1000 newReply
          (snd (rateLimitMiddleware policy3 client 1000 newReply emptyStore)))))) ''RateLimit-Remaining''
     = Some (Text ''2'')
   \<and> headers (fst (rateLimitMiddleware policy3 client 1000 newReply
        (snd (rateLimitMiddleware policy3 client 1000 newReply
          (snd (rateLimitMiddleware policy3 client 1000 newReply emptyStore)))))) ''RateLimit-Remaining''
     \<noteq> Some (Text (toString (max 0 (max' policy3 - 3))))"
  by (simp add: rateLimitMiddleware_def getOrCreate_def createData_def deleteExpired_def
      emptyStore_def policy3_simps client_def admit_def Let_def header_def on_finish_def
      newReply_def toString_def digits.simps digit_def)

subsection \<open>Expired windows\<close>


lemma deleteExpired_forget:
  assumes "rateLimitStore \<sigma> key = Some a" and "resetTime (heap \<sigma> ! a) \<le> now"
  shows "deleteExpired now (\<sigma>\<lparr>rateLimitStore := (rateLimitStore \<sigma>)(key := None)\<rparr>) = deleteExpired now \<sigma>"
proof -
  have "(\<lambda>k. case ((rateLimitStore \<sigma>)(key := None)) k of None \<Rightarrow> None
              | Some a \<Rightarrow> if resetTime (heap \<sigma> ! a) \<le> now then None else Some a)
      = (\<lambda>k. case rateLimitStore \<sigma> k of None \<Rightarrow> None
              | Some a \<Rightarrow> if resetTime (heap \<sigma> ! a) \<le> now then None else Some a)"
    using assms by (auto simp add: fun_eq_iff)
  then show ?thesis by (simp add: deleteExpired_def cong: option.case_cong)
qed

text \<open>
  Claim C5. When the window of the key's record has elapsed, the next call for the key
  behaves exactly as on a store that has no record for the key, whatever the old count
  was: same reply, same resulting store. With a limit of at least 1 the request is
  forwarded, the record under the key is new with count 0, and
  \<^verbatim>\<open>RateLimit-Remaining\<close> is \<open>max - 1\<close>.
\<close>

theorem C5_elapsed_window_is_forgotten:
  assumes rec: "rateLimitStore \<sigma> (keyGenerator p request) = Some a"
    and elapsed: "resetTime (heap \<sigma> ! a) < now"
  shows "rateLimitMiddleware p request now newReply \<sigma>
           = rateLimitMiddleware p request now newReply
               (\<sigma>\<lparr>rateLimitStore := (rateLimitStore \<sigma>)(keyGenerator p request := None)\<rparr>)
       \<and> (0 < max' p \<longrightarrow>
             \<not> sent (fst (rateLimitMiddleware p request now newReply \<sigma>))
           \<and> storedData (snd (rateLimitMiddleware p request now newReply \<sigma>)) (keyGenerator p request)
               = Some \<lparr>count = 0, resetTime = now + windowMs p\<rparr>
           \<and> (standardHeaders p \<longrightarrow>
                headers (fst (rateLimitMiddleware p request now newReply \<sigma>)) ''RateLimit-Remaining''
                  = Some (Text (toString (max' p - 1)))))"
proof -
  let ?key = "keyGenerator p request"
  let ?\<sigma>0 = "\<sigma>\<lparr>rateLimitStore := (rateLimitStore \<sigma>)(?key := None)\<rparr>"
  from elapsed have le: "resetTime (heap \<sigma> ! a) \<le> now" by simp
  have same: "deleteExpired now ?\<sigma>0 = deleteExpired now \<sigma>"
    using deleteExpired_forget [OF rec le] .
  have eq: "rateLimitMiddleware p request now newReply \<sigma> = rateLimitMiddleware p request now newReply ?\<sigma>0"
    unfolding rateLimitMiddleware_def same ..
  have absent: "rateLimitStore \<sigma> ?key = None
                \<or> (\<exists>a. rateLimitStore \<sigma> ?key = Some a \<and> resetTime (heap \<sigma> ! a) \<le> now)"
    using rec le by simp
  have adm: "0 < max' p \<Longrightarrow> rateLimitMiddleware p request now newReply \<sigma>
               = (admit p ?key (length (heap \<sigma>)) \<lparr>count = 0, resetTime = now + windowMs p\<rparr> newReply,
                  snd (createData p ?key now (deleteExpired now \<sigma>)))"
    using middleware_absent [OF absent, of newReply] by (simp add: Let_def)
  show ?thesis
    using eq adm
    by (auto simp add: sent_status_admit_new remaining_admit storedData_def snd_createData_store
        snd_createData_heap heap_deleteExpired)
qed

theorem C5_elapsed_window_is_forgotten_witness:
  "\<not> sent (fst (rateLimitMiddleware policy3 client 64000 newReply exhaustedStore))
   \<and> headers (fst (rateLimitMiddleware policy3 client 64000 newReply exhaustedStore)) ''RateLimit-Remaining''
       = Some (Text ''2'')
   \<and> storedData (snd (rateLimitMiddleware policy3 client 64000 newReply exhaustedStore)) ''1.2.3.4''
       = Some \<lparr>count = 0, resetTime = 124000\<rparr>
   \<and> snd (sequentialRequests policy3 client [(1000, 200), (2000, 200), (3000, 200)] emptyStore)
       = exhaustedStore"
proof -
  have rec: "rateLimitStore exhaustedStore (keyGenerator policy3 client) = Some 0"
    by (simp add: exhaustedStore_def policy3_simps client_def)
  have elapsed: "resetTime (heap exhaustedStore ! 0) < 64000"
    by (simp add: exhaustedStore_def)
  have key: "keyGenerator policy3 client = ''1.2.3.4''"
    by (simp add: policy3_simps client_def)
  have str: "toString 2 = ''2''"
    by (simp add: toString_def digits.simps digit_def)
  have run: "snd (sequentialRequests policy3 client [(1000, 200), (2000, 200), (3000, 200)] emptyStore)
       = exhaustedStore"
    by (simp add: sequentialRequest_def rateLimitMiddleware_def getOrCreate_def createData_def
        deleteExpired_def emptyStore_def exhaustedStore_def policy3_simps client_def admit_def
        Let_def sent_def header_def on_finish_def newReply_def status_def emitFinish_def
        finishListener_def shouldCount_def fun_eq_iff)
  from C5_elapsed_window_is_forgotten [OF rec elapsed, THEN conjunct2]
  show ?thesis
    unfolding key using str run by (simp add: policy3_simps)
qed

subsection \<open>Exempt requests\<close>


lemma exempt_request:
  assumes pos: "0 < max' p"
    and zero: "\<forall>t. countSeen \<sigma> (keyGenerator p request) t = 0"
    and exempt: "\<not> shouldCount p c"
  shows "\<not> sent (fst (sequentialRequest p request now c \<sigma>))
       \<and> snd (sequentialRequest p request now c \<sigma>) = snd (rateLimitMiddleware p request now newReply \<sigma>)
       \<and> (\<forall>t. countSeen (snd (sequentialRequest p request now c \<sigma>)) (keyGenerator p request) t = 0)"
proof (cases rule: middleware_cases [of \<sigma> p request now])
  case (live a)
  from zero have z: "countSeen \<sigma> (keyGenerator p request) now = 0" by simp
  with live have c0: "count (heap \<sigma> ! a) = 0" by (simp add: countSeen_live)
  have st: "storedData (deleteExpired now \<sigma>) (keyGenerator p request) = Some (heap \<sigma> ! a)"
    using live by (simp add: storedData_def store_deleteExpired heap_deleteExpired)
  show ?thesis
    using live pos c0 exempt st
    by (simp add: sequentialRequest_live middleware_live finishListener_skip sent_def
        payload_status payload_admit newReply_def countSeen_def)
next
  case absent
  have st: "storedData (snd (createData p (keyGenerator p request) now (deleteExpired now \<sigma>)))
              (keyGenerator p request) = Some \<lparr>count = 0, resetTime = now + windowMs p\<rparr>"
    by (simp add: storedData_def snd_createData_store snd_createData_heap heap_deleteExpired)
  show ?thesis
    using absent pos exempt st
    by (simp add: sequentialRequest_absent middleware_absent finishListener_skip sent_def
        payload_status payload_admit newReply_def countSeen_def Let_def)
qed

lemma exempt_requests:
  assumes pos: "0 < max' p"
    and zero: "\<forall>t. countSeen \<sigma> (keyGenerator p request) t = 0"
    and exempt: "\<forall>(t, c) \<in> set evs. \<not> shouldCount p c"
  shows "map sent (fst (sequentialRequests p request evs \<sigma>)) = replicate (length evs) False
       \<and> (\<forall>t. countSeen (snd (sequentialRequests p request evs \<sigma>)) (keyGenerator p request) t = 0)"
  using zero exempt
proof (induction evs arbitrary: \<sigma>)
  case Nil
  then show ?case by simp
next
  case (Cons ev evs)
  obtain now c where ev: "ev = (now, c)" by (cases ev)
  from Cons.prems ev have ex: "\<not> shouldCount p c" by simp
  note step = exempt_request [OF pos Cons.prems(1) ex, of now]
  from step have z': "\<forall>t. countSeen (snd (sequentialRequest p request now c \<sigma>)) (keyGenerator p request) t = 0"
    by blast
  from Cons.prems have rest: "\<forall>(t, c) \<in> set evs. \<not> shouldCount p c" by simp
  from Cons.IH [OF z' rest] step show ?case
    by (simp add: ev split_beta Let_def)
qed

lemma exempt_status:
  "skipFailedRequests p \<and> 400 \<le> c \<or> skipSuccessfulRequests p \<and> 200 \<le> c \<and> c < 300
   \<Longrightarrow> \<not> shouldCount p c"
  by (auto simp add: shouldCount_def)

text \<open>
  Claim C6. Under \<open>skipFailedRequests\<close> a request that ends with a status of 400 or more,
  and under \<open>skipSuccessfulRequests\<close> a request that ends with a 2xx status, consumes no
  quota: after any number of such requests for a new key, served one after the other, the
  count a further request finds is still 0 and the further request is forwarded (the limit
  being at least 1).
\<close>

theorem C6_exempt_requests_consume_no_quota:
  assumes fresh: "rateLimitStore \<sigma> (keyGenerator p request) = None"
    and pos: "0 < max' p"
    and exempt: "\<forall>(t, c) \<in> set evs.
        skipFailedRequests p \<and> 400 \<le> c \<or> skipSuccessfulRequests p \<and> 200 \<le> c \<and> c < 300"
  shows "map sent (fst (sequentialRequests p request (evs @ [(t', c')]) \<sigma>))
           = replicate (Suc (length evs)) False
       \<and> countSeen (snd (sequentialRequests p request evs \<sigma>)) (keyGenerator p request) t' = 0"
proof -
  let ?key = "keyGenerator p request"
  let ?\<sigma>' = "snd (sequentialRequests p request evs \<sigma>)"
  from fresh have zero: "\<forall>t. countSeen \<sigma> ?key t = 0"
    by (simp add: countSeen_def storedData_def)
  from exempt have ex: "\<forall>(t, c) \<in> set evs. \<not> shouldCount p c"
    using exempt_status [of p] by blast
  note run = exempt_requests [OF pos zero ex]
  then have seen: "countSeen ?\<sigma>' ?key t' = 0" by blast
  have "sent (fst (rateLimitMiddleware p request t' newReply ?\<sigma>')) = (max' p \<le> 0)"
    using middleware_decision [of p request t' ?\<sigma>'] seen by simp
  with pos have last: "\<not> sent (fst (sequentialRequest p request t' c' ?\<sigma>'))"
    by (simp add: sequentialRequest_def split_beta Let_def sent_def payload_status)
  show ?thesis
    using run last seen
    by (simp add: sequentialRequests_append split_beta Let_def replicate_append_same)
qed

lemma policy5_simps:
  "max' policy5 = 5" "skipFailedRequests policy5" "keyGenerator policy5 = ip"
  by (simp_all add: policy5_def destructure_def orDefault_def noOptions_def)

theorem C6_exempt_requests_consume_no_quota_witness:
  "map sent (fst (sequentialRequests policy5 client
       ([(1000, 500), (2000, 500), (3000, 500), (4000, 500), (5000, 500)] @ [(6000, 500)]) emptyStore))
     = [False, False, False, False, False, False]
   \<and> countSeen (snd (sequentialRequests policy5 client
       [(1000, 500), (2000, 500), (3000, 500), (4000, 500), (5000, 500)] emptyStore)) ''1.2.3.4'' 6000 = 0"
proof -
  have fresh: "rateLimitStore emptyStore (keyGenerator policy5 client) = None"
    by (simp add: emptyStore_def)
  have pos: "0 < max' policy5" by (simp add: policy5_simps)
  have exempt: "\<forall>(t, c) \<in> set [(1000, 500), (2000, 500), (3000, 500), (4000, 500), (5000::int, 500::int)].
        skipFailedRequests policy5 \<and> 400 \<le> c \<or> skipSuccessfulRequests policy5 \<and> 200 \<le> c \<and> c < 300"
    by (simp add: policy5_simps)
  have key: "keyGenerator policy5 client = ''1.2.3.4''"
    by (simp add: policy5_simps client_def)
  from C6_exempt_requests_consume_no_quota [OF fresh pos exempt, of 6000 500]
  show ?thesis
    unfolding key by (simp add: numeral_eq_Suc)
qed

subsection \<open>One store for all instances\<close>


lemma store_after_middleware_other:
  assumes "k \<noteq> keyGenerator p request"
  shows "rateLimitStore (snd (rateLimitMiddleware p request now reply \<sigma>)) k
           = rateLimitStore (deleteExpired now \<sigma>) k"
proof (cases rule: middleware_cases [of \<sigma> p request now])
  case (live a)
  then show ?thesis by (simp add: middleware_live)
next
  case absent
  then show ?thesis using assms by (simp add: middleware_absent Let_def createData_def)
qed

lemma store_after_middleware_key_expired:
  assumes "rateLimitStore \<sigma> (keyGenerator p request) = Some a" and "resetTime (heap \<sigma> ! a) \<le> now"
  shows "rateLimitStore (snd (rateLimitMiddleware p request now reply \<sigma>)) (keyGenerator p request)
           = Some (length (heap \<sigma>))"
  using assms middleware_absent [of \<sigma> p request now reply]
  by (auto simp add: Let_def snd_createData_store heap_deleteExpired)


lemma counted_request_new_key:
  assumes fresh: "rateLimitStore \<sigma> (keyGenerator p request) = None"
    and pos: "0 < max' p" and cnt: "shouldCount p code"
  shows "holds (snd (sequentialRequest p request now code \<sigma>)) (keyGenerator p request)
           (length (heap \<sigma>)) \<lparr>count = 1, resetTime = now + windowMs p\<rparr>"
proof -
  let ?key = "keyGenerator p request"
  have "holds (snd (createData p ?key now (deleteExpired now \<sigma>))) ?key (length (heap \<sigma>))
          \<lparr>count = 0, resetTime = now + windowMs p\<rparr>"
    using holds_createData [of p ?key now "deleteExpired now \<sigma>"] by (simp add: heap_deleteExpired)
  from holds_finishListener [OF this cnt] show ?thesis
    using sequentialRequest_absent [of \<sigma> p request now code] fresh pos by (simp add: Let_def)
qed

lemma storedData_middleware_live:
  assumes "holds \<sigma> (keyGenerator p request) a d" and "now < resetTime d"
  shows "storedData (snd (rateLimitMiddleware p request now reply \<sigma>)) (keyGenerator p request) = Some d"
proof -
  from assms have st: "rateLimitStore \<sigma> (keyGenerator p request) = Some a"
    and live: "now < resetTime (heap \<sigma> ! a)" by (simp_all add: holds_def)
  show ?thesis
    using assms middleware_live [OF st live, of reply]
    by (simp add: storedData_def store_deleteExpired heap_deleteExpired holds_def)
qed

lemma storedData_middleware_absent:
  assumes "rateLimitStore \<sigma> (keyGenerator p request) = None"
  shows "storedData (snd (rateLimitMiddleware p request now reply \<sigma>)) (keyGenerator p request)
           = Some \<lparr>count = 0, resetTime = now + windowMs p\<rparr>"
  using assms middleware_absent [of \<sigma> p request now reply]
  by (simp add: Let_def storedData_def snd_createData_store snd_createData_heap heap_deleteExpired)

text \<open>
  Claim C10. Every instance made by \<^verbatim>\<open>createRateLimitMiddleware\<close> works on the one
  module-level map, keyed by the generated key alone. After a request for a new key \<open>k\<close>
  was forwarded and counted through an instance with policy \<open>p1\<close>, a call of an instance
  with policy \<open>p2\<close> for the same key inside \<open>p1\<close>'s window finds count 1 and the reset
  time \<open>p1\<close> set, where alone it would have found count 0 and its own reset time. And
  every call of every instance removes every expired record of the map: an expired
  record of another key is gone afterwards, and an expired record of the request's own
  key is replaced by a new object.
\<close>

theorem C10_instances_share_one_store:
  assumes p1: "p1 = destructure o1" and p2: "p2 = destructure o2"
    and k1: "keyGenerator p1 request1 = k" and k2: "keyGenerator p2 request2 = k"
    and fresh: "rateLimitStore \<sigma> k = None"
    and pos: "0 < max' p1" and cnt: "shouldCount p1 code"
    and window: "t1 \<le> t2 \<and> t2 < t1 + windowMs p1"
  shows "storedData (snd (createRateLimitMiddleware o2 request2 t2 reply
                       (snd (sequentialRequest p1 request1 t1 code \<sigma>)))) k
           = Some \<lparr>count = 1, resetTime = t1 + windowMs p1\<rparr>
       \<and> storedData (snd (createRateLimitMiddleware o2 request2 t2 reply \<sigma>)) k
           = Some \<lparr>count = 0, resetTime = t2 + windowMs p2\<rparr>
       \<and> (\<forall>\<sigma>0 k' a. rateLimitStore \<sigma>0 k' = Some a \<and> resetTime (heap \<sigma>0 ! a) \<le> t2 \<longrightarrow>
            rateLimitStore (snd (createRateLimitMiddleware o2 request2 t2 reply \<sigma>0)) k'
              = (if k' = k then Some (length (heap \<sigma>0)) else None))"
proof -
  have h: "holds (snd (sequentialRequest p1 request1 t1 code \<sigma>)) (keyGenerator p2 request2)
             (length (heap \<sigma>)) \<lparr>count = 1, resetTime = t1 + windowMs p1\<rparr>"
    using counted_request_new_key [of \<sigma> p1 request1 code t1] fresh pos cnt k1 k2 by simp
  have a: "storedData (snd (rateLimitMiddleware p2 request2 t2 reply
                       (snd (sequentialRequest p1 request1 t1 code \<sigma>)))) k
           = Some \<lparr>count = 1, resetTime = t1 + windowMs p1\<rparr>"
    using storedData_middleware_live [OF h, of t2 reply] window k2 by simp
  have b: "storedData (snd (rateLimitMiddleware p2 request2 t2 reply \<sigma>)) k
           = Some \<lparr>count = 0, resetTime = t2 + windowMs p2\<rparr>"
    using storedData_middleware_absent [of \<sigma> p2 request2 t2 reply] fresh k2 by simp
  have c: "rateLimitStore (snd (rateLimitMiddleware p2 request2 t2 reply \<sigma>0)) k'
              = (if k' = k then Some (length (heap \<sigma>0)) else None)"
    if "rateLimitStore \<sigma>0 k' = Some a" and "resetTime (heap \<sigma>0 ! a) \<le> t2" for \<sigma>0 k' a
  proof (cases "k' = k")
    case True
    with that k2 show ?thesis
      using store_after_middleware_key_expired [of \<sigma>0 p2 request2 a t2 reply] by simp
  next
    case False
    with that k2 show ?thesis
      using store_after_middleware_other [of k' p2 request2 t2 reply \<sigma>0]
      by (simp add: store_deleteExpired)
  qed
  from a b c show ?thesis
    unfolding createRateLimitMiddleware_def p2 [symmetric] by blast
qed

theorem C10_instances_share_one_store_witness:
  "storedData (snd (authRateLimitMiddleware client 2000 newReply
       (snd (sequentialRequest (destructure strictOptions) client 1000 201 emptyStore)))) ''1.2.3.4''
     = Some \<lparr>count = 1, resetTime = 301000\<rparr>
   \<and> storedData (snd (authRateLimitMiddleware client 2000 newReply emptyStore)) ''1.2.3.4''
     = Some \<lparr>count = 0, resetTime = 902000\<rparr>
   \<and> rateLimitStore (snd (authRateLimitMiddleware client 2000 newReply
        \<lparr>heap = [\<lparr>count = 7, resetTime = 1500\<rparr>], rateLimitStore = [''5.6.7.8'' \<mapsto> 0]\<rparr>)) ''5.6.7.8''
     = None"
proof -
  let ?p1 = "destructure strictOptions" and ?p2 = "destructure authOptions"
  have k1: "keyGenerator ?p1 client = ''1.2.3.4''" and k2: "keyGenerator ?p2 client = ''1.2.3.4''"
    by (simp_all add: destructure_def strictOptions_def authOptions_def noOptions_def
        orDefault_def client_def)
  have fresh: "rateLimitStore emptyStore ''1.2.3.4'' = None" by (simp add: emptyStore_def)
  have pos: "0 < max' ?p1"
    by (simp add: destructure_def strictOptions_def noOptions_def orDefault_def)
  have cnt: "shouldCount ?p1 201"
    by (simp add: shouldCount_def destructure_def strictOptions_def noOptions_def orDefault_def)
  have w1: "windowMs ?p1 = 300000" and w2: "windowMs ?p2 = 900000"
    by (simp_all add: destructure_def strictOptions_def authOptions_def noOptions_def orDefault_def)
  have window: "(1000::int) \<le> 2000 \<and> 2000 < 1000 + windowMs ?p1" by (simp add: w1)
  let ?\<sigma>0 = "\<lparr>heap = [\<lparr>count = 7, resetTime = 1500\<rparr>], rateLimitStore = [''5.6.7.8'' \<mapsto> 0]\<rparr>"
  have old: "rateLimitStore ?\<sigma>0 ''5.6.7.8'' = Some 0 \<and> resetTime (heap ?\<sigma>0 ! 0) \<le> 2000" by simp
  from C10_instances_share_one_store [OF refl refl k1 k2 fresh pos cnt window, of newReply]
  have "storedData (snd (createRateLimitMiddleware authOptions client 2000 newReply
                       (snd (sequentialRequest ?p1 client 1000 201 emptyStore)))) ''1.2.3.4''
           = Some \<lparr>count = 1, resetTime = 1000 + windowMs ?p1\<rparr>
       \<and> storedData (snd (createRateLimitMiddleware authOptions client 2000 newReply emptyStore)) ''1.2.3.4''
           = Some \<lparr>count = 0, resetTime = 2000 + windowMs ?p2\<rparr>
       \<and> rateLimitStore (snd (createRateLimitMiddleware authOptions client 2000 newReply ?\<sigma>0)) ''5.6.7.8''
              = (if ''5.6.7.8'' = ''1.2.3.4'' then Some (length (heap ?\<sigma>0)) else None)"
    using old by blast
  then show ?thesis
    by (simp add: authRateLimitMiddleware_def w1 w2)
qed

subsection \<open>Overlapping requests\<close>


lemma policy1_simps:
  "max' policy1 = 1" "windowMs policy1 = 900000" "keyGenerator policy1 = ip"
  "\<not> skipSuccessfulRequests policy1" "\<not> skipFailedRequests policy1"
  by (simp_all add: policy1_def destructure_def orDefault_def noOptions_def)

lemma countSeen_zero:
  "storedData \<sigma> key = Some d \<Longrightarrow> count d = 0 \<Longrightarrow> countSeen \<sigma> key t = 0"
  by (simp add: countSeen_def)

text \<open>
  Claim C8, as amended. A middleware call runs without interleaving, but it only reads
  the count; the count grows when a response finishes. So when a second request for a
  new key arrives before the response of the first has finished, it finds the same count
  0 as the first and both are forwarded, for every limit of at least 1 and so for limit
  1. Only when the first response has finished with a counted status before the second
  request arrives inside the window is the second one rejected under limit 1.
\<close>

theorem C8_overlapping_requests_both_admitted:
  assumes fresh: "rateLimitStore \<sigma> (keyGenerator p request) = None"
    and pos: "0 < max' p"
    and first: "rateLimitMiddleware p request t1 newReply \<sigma> = (rA, \<sigma>1)"
  shows "\<not> sent rA
       \<and> countSeen \<sigma> (keyGenerator p request) t1 = 0
       \<and> countSeen \<sigma>1 (keyGenerator p request) t2 = 0
       \<and> \<not> sent (fst (rateLimitMiddleware p request t2 newReply \<sigma>1))
       \<and> (max' p = 1 \<and> shouldCount p code \<and> t1 \<le> t2 \<and> t2 < t1 + windowMs p \<longrightarrow>
            sent (fst (rateLimitMiddleware p request t2 newReply (emitFinish (status code rA) \<sigma>1)))
          \<and> statusCode (fst (rateLimitMiddleware p request t2 newReply (emitFinish (status code rA) \<sigma>1))) = 429)"
proof -
  let ?key = "keyGenerator p request"
  have seen0: "countSeen \<sigma> ?key t1 = 0"
    using fresh by (simp add: countSeen_def storedData_def)
  have a: "\<not> sent rA"
    using middleware_decision [of p request t1 \<sigma>] first seen0 pos by simp
  have "storedData \<sigma>1 ?key = Some \<lparr>count = 0, resetTime = t1 + windowMs p\<rparr>"
    using storedData_middleware_absent [OF fresh, of t1 newReply] first by simp
  then have seen1: "countSeen \<sigma>1 ?key t2 = 0" by (rule countSeen_zero) simp
  have b: "\<not> sent (fst (rateLimitMiddleware p request t2 newReply \<sigma>1))"
    using middleware_decision [of p request t2 \<sigma>1] seen1 pos by simp
  have c: "sent (fst (rateLimitMiddleware p request t2 newReply (emitFinish (status code rA) \<sigma>1)))
          \<and> statusCode (fst (rateLimitMiddleware p request t2 newReply (emitFinish (status code rA) \<sigma>1))) = 429"
    if m: "max' p = 1" and cnt: "shouldCount p code" and w: "t1 \<le> t2" "t2 < t1 + windowMs p"
  proof -
    let ?\<sigma>2 = "emitFinish (status code rA) \<sigma>1"
    have sq: "snd (sequentialRequest p request t1 code \<sigma>) = ?\<sigma>2"
      using first a by (simp add: sequentialRequest_def Let_def)
    from counted_request_new_key [OF fresh pos cnt, of t1]
    have h: "holds ?\<sigma>2 ?key (length (heap \<sigma>)) \<lparr>count = 1, resetTime = t1 + windowMs p\<rparr>"
      by (simp add: sq)
    then have st: "rateLimitStore ?\<sigma>2 ?key = Some (length (heap \<sigma>))"
      and d: "heap ?\<sigma>2 ! length (heap \<sigma>) = \<lparr>count = 1, resetTime = t1 + windowMs p\<rparr>"
      by (simp_all add: holds_def)
    from middleware_live [OF st, of t2 newReply] d w m
    show ?thesis by (simp add: sent_tooManyRequests statusCode_tooManyRequests)
  qed
  from a seen0 seen1 b c show ?thesis by blast
qed

theorem C8_overlapping_requests_both_admitted_witness:
  "\<not> sent (fst (rateLimitMiddleware policy1 client 1000 newReply emptyStore))
   \<and> \<not> sent (fst (rateLimitMiddleware policy1 client 1000 newReply
                 (snd (rateLimitMiddleware policy1 client 1000 newReply emptyStore))))
   \<and> sent (fst (rateLimitMiddleware policy1 client 1000 newReply
              (emitFinish (status 200 (fst (rateLimitMiddleware policy1 client 1000 newReply emptyStore)))
                 (snd (rateLimitMiddleware policy1 client 1000 newReply emptyStore)))))"
proof -
  let ?m = "rateLimitMiddleware policy1 client 1000 newReply emptyStore"
  have fresh: "rateLimitStore emptyStore (keyGenerator policy1 client) = None"
    by (simp add: emptyStore_def)
  have pos: "0 < max' policy1" by (simp add: policy1_simps)
  have first: "?m = (fst ?m, snd ?m)" by simp
  have cnt: "shouldCount policy1 200" by (simp add: shouldCount_def policy1_simps)
  from C8_overlapping_requests_both_admitted [OF fresh pos first, of 1000 200]
  show ?thesis using cnt by (simp add: policy1_simps)
qed

theorem C8_counterexample:
  "\<not> sent (fst (rateLimitMiddleware policy1 client 1000 newReply emptyStore))
   \<and> statusCode (fst (rateLimitMiddleware policy1 client 1000 newReply emptyStore)) = 200
   \<and> \<not> sent (fst (rateLimitMiddleware policy1 client 1000 newReply
                 (snd (rateLimitMiddleware policy1 client 1000 newReply emptyStore))))
   \<and> statusCode (fst (rateLimitMiddleware policy1 client 1000 newReply
                 (snd (rateLimitMiddleware policy1 client 1000 newReply emptyStore)))) = 200"
  by (simp add: rateLimitMiddleware_def getOrCreate_def createData_def deleteExpired_def
      emptyStore_def policy1_simps client_def admit_def Let_def sent_def header_def
      on_finish_def newReply_def)

subsection \<open>Live records\<close>


lemma live_record_kept:
  assumes wf: "wellFormed \<sigma>"
    and rec: "rateLimitStore \<sigma> k = Some a" and live: "now < resetTime (heap \<sigma> ! a)"
  shows "rateLimitStore (snd (rateLimitMiddleware p request now reply \<sigma>)) k = Some a
       \<and> heap (snd (rateLimitMiddleware p request now reply \<sigma>)) ! a = heap \<sigma> ! a"
proof (cases rule: middleware_cases [of \<sigma> p request now])
  case (live b)
  then show ?thesis using rec assms(3)
    by (simp add: middleware_live store_deleteExpired heap_deleteExpired)
next
  case absent
  from wf rec have lt: "a < length (heap \<sigma>)" by (simp add: wellFormed_def)
  from absent rec assms(3) have ne: "k \<noteq> keyGenerator p request" by auto
  show ?thesis using absent rec assms(3) lt ne
    by (simp add: middleware_absent Let_def createData_def store_deleteExpired heap_deleteExpired
        nth_append)
qed

text \<open>
  Claim C9, as amended. A middleware call, whether it forwards or rejects, leaves every
  live record of the map as it is, under the same key and with the same count and reset
  time; when the record of the request's own key is live the call changes nothing but
  the expired entries it sweeps. So a rejected request does not change the record of its
  key, and its response finishes without any effect on the store. The one change of a
  record is made when the response of a forwarded request finishes: the count of the
  object the request saw grows by one if the final status is counted, and nothing
  happens otherwise.
\<close>

theorem C9_live_records_untouched:
  assumes wf: "wellFormed \<sigma>"
    and mw: "rateLimitMiddleware p request now newReply \<sigma> = (r, \<sigma>')"
  shows "(\<forall>k a. rateLimitStore \<sigma> k = Some a \<and> now < resetTime (heap \<sigma> ! a) \<longrightarrow>
            rateLimitStore \<sigma>' k = Some a \<and> heap \<sigma>' ! a = heap \<sigma> ! a)
       \<and> (\<forall>a. rateLimitStore \<sigma> (keyGenerator p request) = Some a \<and> now < resetTime (heap \<sigma> ! a) \<longrightarrow>
            \<sigma>' = deleteExpired now \<sigma> \<and> heap \<sigma>' = heap \<sigma>)
       \<and> (sent r \<longrightarrow> statusCode r = 429 \<and> emitFinish r \<sigma>' = \<sigma>')
       \<and> (\<not> sent r \<longrightarrow>
            (\<exists>a. rateLimitStore \<sigma>' (keyGenerator p request) = Some a
                \<and> emitFinish (status code r) \<sigma>'
                    = (if shouldCount p code
                       then \<sigma>'\<lparr>heap := (heap \<sigma>')[a := (heap \<sigma>' ! a)\<lparr>count := count (heap \<sigma>' ! a) + 1\<rparr>]\<rparr>
                       else \<sigma>')))"
proof -
  have a: "rateLimitStore \<sigma>' k = Some a \<and> heap \<sigma>' ! a = heap \<sigma> ! a"
    if "rateLimitStore \<sigma> k = Some a" and "now < resetTime (heap \<sigma> ! a)" for k a
    using live_record_kept [OF wf that, of p request newReply] mw by simp
  have b: "\<sigma>' = deleteExpired now \<sigma> \<and> heap \<sigma>' = heap \<sigma>"
    if "rateLimitStore \<sigma> (keyGenerator p request) = Some a" and "now < resetTime (heap \<sigma> ! a)" for a
    using middleware_live [OF that, of newReply] mw
    by (auto simp add: heap_deleteExpired split: if_splits)
  have c: "statusCode r = 429 \<and> emitFinish r \<sigma>' = \<sigma>'" if s: "sent r"
  proof -
    have s': "sent (fst (rateLimitMiddleware p request now newReply \<sigma>))" using mw s by simp
    from middleware_rejects [OF _ s']
    obtain d where "r = tooManyRequests p d now newReply"
      using mw by (auto simp: sent_def newReply_def)
    then show ?thesis
      by (simp add: statusCode_tooManyRequests emitFinish_tooManyRequests_new)
  qed
  have d: "\<exists>a. rateLimitStore \<sigma>' (keyGenerator p request) = Some a
                \<and> emitFinish (status code r) \<sigma>'
                    = (if shouldCount p code
                       then \<sigma>'\<lparr>heap := (heap \<sigma>')[a := (heap \<sigma>' ! a)\<lparr>count := count (heap \<sigma>' ! a) + 1\<rparr>]\<rparr>
                       else \<sigma>')" if ns: "\<not> sent r"
  proof -
    from onFinish_middleware_new [of p request now \<sigma>] mw ns
    obtain a where st: "rateLimitStore \<sigma>' (keyGenerator p request) = Some a"
      and fin: "onFinish r = [finishListener p (keyGenerator p request) a]" by auto
    have em: "emitFinish (status code r) \<sigma>' = finishListener p (keyGenerator p request) a code \<sigma>'"
      by (simp add: emitFinish_def status_def fin)
    from st have same: "(rateLimitStore \<sigma>')(keyGenerator p request \<mapsto> a) = rateLimitStore \<sigma>'"
      by (rule map_upd_triv)
    show ?thesis
      using st by (intro exI [of _ a]) (simp add: em finishListener_def same)
  qed
  from a b c d show ?thesis by blast
qed

theorem C9_live_records_untouched_witness:
  "rateLimitStore (snd (rateLimitMiddleware policy3 client 4000 newReply exhaustedStore)) ''1.2.3.4'' = Some 0
   \<and> heap (snd (rateLimitMiddleware policy3 client 4000 newReply exhaustedStore))
       = [\<lparr>count = 3, resetTime = 61000\<rparr>]
   \<and> statusCode (fst (rateLimitMiddleware policy3 client 4000 newReply exhaustedStore)) = 429"
proof -
  let ?m = "rateLimitMiddleware policy3 client 4000 newReply exhaustedStore"
  have wf: "wellFormed exhaustedStore"
    by (simp add: wellFormed_def exhaustedStore_def)
  have mw: "?m = (fst ?m, snd ?m)" by simp
  have rec: "rateLimitStore exhaustedStore ''1.2.3.4'' = Some 0
             \<and> 4000 < resetTime (heap exhaustedStore ! 0)"
    by (simp add: exhaustedStore_def)
  have key: "keyGenerator policy3 client = ''1.2.3.4''"
    by (simp add: policy3_simps client_def)
  have rejected: "sent (fst ?m)"
    by (simp add: middleware_decision countSeen_def storedData_def exhaustedStore_def
        policy3_simps client_def)
  have hp: "heap exhaustedStore = [\<lparr>count = 3, resetTime = 61000\<rparr>]"
    by (simp add: exhaustedStore_def)
  note T = C9_live_records_untouched [OF wf mw, of 200, unfolded key]
  from T rec have 1: "rateLimitStore (snd ?m) ''1.2.3.4'' = Some 0" by blast
  from T rec have "heap (snd ?m) = heap exhaustedStore" by blast
  with hp have 2: "heap (snd ?m) = [\<lparr>count = 3, resetTime = 61000\<rparr>]" by simp
  from T rejected have 3: "statusCode (fst ?m) = 429" by blast
  from 1 2 3 show ?thesis by simp
qed

theorem C9_counterexample:
  "sent (fst (rateLimitMiddleware policy3 client 4000 newReply exhaustedStore))
   \<and> statusCode (fst (rateLimitMiddleware policy3 client 4000 newReply exhaustedStore)) = 429
   \<and> heap (snd (rateLimitMiddleware policy3 client 4000 newReply exhaustedStore)) = heap exhaustedStore
   \<and> storedData (snd (rateLimitMiddleware policy3 client 4000 newReply exhaustedStore)) ''1.2.3.4''
       = storedData exhaustedStore ''1.2.3.4''
   \<and> emitFinish (fst (rateLimitMiddleware policy3 client 4000 newReply exhaustedStore))
        (snd (rateLimitMiddleware policy3 client 4000 newReply exhaustedStore))
       = snd (rateLimitMiddleware policy3 client 4000 newReply exhaustedStore)"
  by (simp add: rateLimitMiddleware_def getOrCreate_def deleteExpired_def exhaustedStore_def
      policy3_simps client_def storedData_def tooManyRequests_def Let_def sent_def send_def
      status_def header_def newReply_def emitFinish_def)

text \<open>
  The listener keeps the object it saw. When the window of that object has ended and a
  later request has already opened a new window for the key, the listener of the older
  request still increments the old object and puts it back under the key, in place of
  the live record.
\<close>

lemma stale_listener_replaces_live_record:
  "storedData (snd (rateLimitMiddleware policy3 client 70000 newReply
       (snd (rateLimitMiddleware policy3 client 1000 newReply emptyStore)))) ''1.2.3.4''
     = Some \<lparr>count = 0, resetTime = 130000\<rparr>
   \<and> storedData (finishListener policy3 ''1.2.3.4'' 0 200
        (snd (rateLimitMiddleware policy3 client 70000 newReply
          (snd (rateLimitMiddleware policy3 client 1000 newReply emptyStore))))) ''1.2.3.4''
     = Some \<lparr>count = 1, resetTime = 61000\<rparr>"
  by (simp add: rateLimitMiddleware_def getOrCreate_def createData_def deleteExpired_def
      emptyStore_def policy3_simps client_def storedData_def Let_def finishListener_def
      shouldCount_def)

subsection \<open>Route scope\<close>


lemma endsWith_iff: "endsWith s t = (\<exists>pre. s = pre @ t)"
proof
  assume "endsWith s t"
  then have "s = take (length s - length t) s @ t"
    by (metis append_take_drop_id endsWith_def)
  then show "\<exists>pre. s = pre @ t" ..
next
  assume "\<exists>pre. s = pre @ t"
  then show "endsWith s t" by (auto simp add: endsWith_def)
qed

lemma startsWith_iff: "startsWith s t = (\<exists>rest. s = t @ rest)"
proof
  assume "startsWith s t"
  then have "s = t @ drop (length t) s"
    by (metis append_take_drop_id startsWith_def)
  then show "\<exists>rest. s = t @ rest" ..
next
  assume "\<exists>rest. s = t @ rest"
  then show "startsWith s t" by (auto simp add: startsWith_def)
qed

lemma hook_entry:
  "(if endsWith route ''/*'' then startsWith u (sliceEnd route 2) else u = route)
     = (u = route \<or> (\<exists>pre rest. route = pre @ ''/*'' \<and> u = pre @ rest))"
proof (cases "endsWith route ''/*''")
  case True
  then obtain pre where r: "route = pre @ ''/*''" by (auto simp add: endsWith_iff)
  have s: "sliceEnd route 2 = pre" unfolding r by (simp add: sliceEnd_def)
  show ?thesis using True r s by (auto simp add: startsWith_iff)
next
  case False
  then show ?thesis by (auto simp add: endsWith_iff)
qed

text \<open>
  Claim C7, as amended. \<open>shouldSkip\<close> decides on the route template
  (\<^verbatim>\<open>request.routerPath\<close>) by exact membership, and the stage handles the request exactly
  when \<open>enabled\<close> is true, \<open>onlyRoutes\<close> is absent or contains the route, and
  \<open>skipRoutes\<close> is absent or does not contain the route; both lists are consulted and
  \<^verbatim>\<open>/*\<close> has no special meaning. The separate hook in front of the JWT middleware
  compares the raw \<^verbatim>\<open>request.url\<close> with each entry of its list: an entry matches the
  identical URL, and an entry ending in \<^verbatim>\<open>/*\<close> matches every URL that starts with the
  entry without its last two characters.
\<close>

theorem C7_route_scope:
  "(\<not> shouldSkip options request) =
      (enabled options = Some True
       \<and> (\<forall>routes. onlyRoutes options = Some routes \<longrightarrow> routerPath request \<in> set routes)
       \<and> (\<forall>routes. skipRoutes options = Some routes \<longrightarrow> routerPath request \<notin> set routes))
   \<and> shouldSkip_hook configured request =
      (\<exists>route \<in> set (case configured of None \<Rightarrow> [] | Some rs \<Rightarrow> rs).
          url request = route \<or> (\<exists>pre rest. route = pre @ ''/*'' \<and> url request = pre @ rest))"
proof
  show "(\<not> shouldSkip options request) =
      (enabled options = Some True
       \<and> (\<forall>routes. onlyRoutes options = Some routes \<longrightarrow> routerPath request \<in> set routes)
       \<and> (\<forall>routes. skipRoutes options = Some routes \<longrightarrow> routerPath request \<notin> set routes))"
    by (auto simp add: shouldSkip_def Let_def split: option.splits)
next
  show "shouldSkip_hook configured request =
      (\<exists>route \<in> set (case configured of None \<Rightarrow> [] | Some rs \<Rightarrow> rs).
          url request = route \<or> (\<exists>pre rest. route = pre @ ''/*'' \<and> url request = pre @ rest))"
    unfolding shouldSkip_hook_def Let_def list_ex_iff hook_entry ..
qed

theorem C7_route_scope_witness:
  "shouldSkip \<lparr>enabled = Some True, skipRoutes = None, onlyRoutes = Some [''/api/v1/todos'']\<rparr>
     (requestTo ''/health'')
   \<and> shouldSkip_hook (Some [''/docs/*'']) (requestTo ''/docs/swagger'')"
proof -
  let ?o = "\<lparr>enabled = Some True, skipRoutes = None, onlyRoutes = Some [''/api/v1/todos'']\<rparr>"
  let ?r = "requestTo ''/health''" and ?d = "requestTo ''/docs/swagger''"
  have out: "\<not> (\<forall>routes. onlyRoutes ?o = Some routes \<longrightarrow> routerPath ?r \<in> set routes)"
    by (simp add: requestTo_def)
  from C7_route_scope [of ?o ?r None] out
  have 1: "shouldSkip ?o ?r" by blast
  have "''/docs/*'' = ''/docs'' @ ''/*'' \<and> url ?d = ''/docs'' @ ''/swagger''"
    by (simp add: requestTo_def)
  then have "\<exists>pre rest. ''/docs/*'' = pre @ ''/*'' \<and> url ?d = pre @ rest"
    by (intro exI)
  then have "\<exists>route \<in> set (case Some [''/docs/*''] of None \<Rightarrow> [] | Some rs \<Rightarrow> rs).
               url ?d = route \<or> (\<exists>pre rest. route = pre @ ''/*'' \<and> url ?d = pre @ rest)"
    by (simp del: append.simps)
  with C7_route_scope [of ?o ?d "Some [''/docs/*'']"]
  have 2: "shouldSkip_hook (Some [''/docs/*'']) ?d" by blast
  from 1 2 show ?thesis by (rule conjI)
qed

theorem C7_counterexample:
  "routerPath (requestTo ''/a'') \<in> set [''/a'']
   \<and> shouldSkip \<lparr>enabled = Some True, skipRoutes = Some [''/a''], onlyRoutes = Some [''/a'']\<rparr>
        (requestTo ''/a'')
   \<and> shouldSkip \<lparr>enabled = None, skipRoutes = None, onlyRoutes = None\<rparr> (requestTo ''/health'')
   \<and> \<not> shouldSkip \<lparr>enabled = Some True, skipRoutes = Some [''/docs/*''], onlyRoutes = None\<rparr>
        (requestTo ''/docs/swagger'')
   \<and> shouldSkip_hook (Some [''/docs/*''])
        \<lparr>ip = ''1.2.3.4'', url = ''/docsify'', routerPath = ''/:page''\<rparr>"
  by (simp add: shouldSkip_def shouldSkip_hook_def requestTo_def endsWith_def startsWith_def
      sliceEnd_def Let_def)

end
